theory Spec2Isabelle
  imports Main "HOL-Library.Word" "HOL-Library.Stream" "HOL-Library.Signed_Division"
begin

unbundle bit_operations_syntax

section \<open>Data model of payrange_solution1.c\<close>

text \<open>
  The C types of the program. \<open>TickType_t\<close> is FreeRTOS's 32-bit unsigned tick counter,
  \<open>int64_t\<close> is read as two's complement through \<open>sint\<close>, and \<open>int\<close> is 32 bits wide.
  A \<open>char\<close> array that holds a C string is a HOL \<open>string\<close>, the characters before the
  terminating NUL, and a string is stored and copied as a value. The records therefore say
  which slot receives which token and which timestamp; they do not say which bytes a
  slot shows when its string is read back. The two arrays are declared smaller than
  what is written into them (\<open>stringPlacer[8]\<close>, \<open>taskBRandomString[7]\<close>): the stores
  that fall outside them are listed in the section on the char arrays, and what such a
  store does to the bytes next to the array in memory is not part of the model.
\<close>

type_synonym TickType_t = "32 word"
type_synonym int64_t = "64 word"
type_synonym int_t = "32 word"

abbreviation NUMBER_OF_ALPHANUMERIC_DIGITS :: nat where
  "NUMBER_OF_ALPHANUMERIC_DIGITS \<equiv> 8"

abbreviation SIZE_OF_THE_TASK_B_ARRAY :: nat where
  "SIZE_OF_THE_TASK_B_ARRAY \<equiv> 5"

abbreviation SIZE_OF_VALUE_E_STRUCTURE :: nat where
  "SIZE_OF_VALUE_E_STRUCTURE \<equiv> 7"

abbreviation INT_MAX :: nat where
  "INT_MAX \<equiv> 2147483647"

record taskBStructure_t =
  stringTime :: TickType_t
  stringPlacer :: string

record valueD_t =
  randomNumberTime :: TickType_t
  randomNumber :: int64_t

record valueE_t =
  randomValueB :: taskBStructure_t
  currentValueD :: valueD_t

text \<open>
  One line of E.txt, with the five values that \<open>fprintf\<close> formats in \<open>writeToFileE\<close>,
  and what the program prints on the console.
\<close>

record lineE =
  lineNumber :: int_t
  lineStringTime :: TickType_t
  lineStringPlacer :: string
  lineRandomNumberTime :: TickType_t
  lineRandomNumber :: int64_t

datatype printed =
    ARandomNumber int64_t
  | PleaseEnterCode
  | EValueFound TickType_t string
  | ValueNotFound int64_t

datatype error = AssertFailed | DivideByZero | FcloseNull

text \<open>
  The C library's \<open>rand()\<close> is outside the repository: its successive results are an
  input of the model, a stream of naturals. The C standard puts each of them between 0
  and \<open>RAND_MAX\<close>, which is at most \<open>INT_MAX\<close>.
\<close>

type_synonym rand_t = "nat stream"

text \<open>
  The globals of the program, the one local that outlives a loop iteration
  (\<open>taskBRandomString\<close> of \<open>privateTaskB\<close>), and the environment: the generator behind
  \<open>rand()\<close>, the file E.txt (\<open>None\<close> when it does not exist), the console, and whether
  the scheduler holds task A suspended.
\<close>

record state =
  currentRandomNumberFromTaskA :: int64_t
  taskBStructure :: "taskBStructure_t list"
  valueEStructure :: "valueE_t list"
  fileELineNumber :: int_t
  taskBRandomString :: string
  taskASuspended :: bool
  randState :: rand_t
  fileE :: "lineE list option"
  console :: "printed list"

section \<open>Random numbers and strings\<close>

definition rand :: "rand_t \<Rightarrow> nat \<times> rand_t" where
  "rand rs = (shd rs, stl rs)"

text \<open>\<open>rand() % max\<close>, with \<open>maxN\<close> for the parameter \<open>max\<close>; the division traps when it is 0.\<close>

definition generateIntRandomNumber :: "nat \<Rightarrow> rand_t \<Rightarrow> error + nat \<times> rand_t" where
  "generateIntRandomNumber maxN rs =
     (if maxN = 0 then Inl DivideByZero
      else (let (r, rs') = rand rs in Inr (r mod maxN, rs')))"

section \<open>Task A\<close>

text \<open>
  One iteration of the endless loop of \<open>privateTaskA\<close>. C's \<open>%\<close> truncates towards zero:
  it is \<open>smod\<close> on the signed value. The assertion of the source joins its two
  comparisons with \<open>||\<close>.
\<close>

definition privateTaskA :: "state \<Rightarrow> error + state" where
  "privateTaskA s =
     (let (r1, rs1) = rand (randState s);
          generatedRandomNumber = (word_of_nat r1 :: int64_t);
          (r2, rs2) = rand rs1;
          generatedRandomNumber = push_bit 32 generatedRandomNumber OR word_of_nat r2;
          generatedRandomNumber =
            word_of_int (sint generatedRandomNumber smod 899999999999) + 100000000000;
          s1 = s\<lparr>currentRandomNumberFromTaskA := generatedRandomNumber, randState := rs2\<rparr>
      in if 100000000000 <s generatedRandomNumber \<or> generatedRandomNumber <s 1000000000000
         then Inr (s1\<lparr>console := console s1 @ [ARandomNumber generatedRandomNumber]\<rparr>)
         else Inl AssertFailed)"

section \<open>Start-up\<close>

text \<open>
  The state in which \<open>main_payrange\<close> starts the scheduler: C zero-initialises the
  globals, and the line counter is set to 0 once more. The generator and the file left
  on disk by an earlier run are given. \<open>taskBRandomString\<close> is uninitialised in the
  source; it is written before it is read.
\<close>

definition main_payrange :: "rand_t \<Rightarrow> lineE list option \<Rightarrow> state" where
  "main_payrange rs file =
     \<lparr>currentRandomNumberFromTaskA = 0,
      taskBStructure =
        replicate SIZE_OF_THE_TASK_B_ARRAY \<lparr>stringTime = 0, stringPlacer = []\<rparr>,
      valueEStructure =
        replicate SIZE_OF_VALUE_E_STRUCTURE
          \<lparr>randomValueB = \<lparr>stringTime = 0, stringPlacer = []\<rparr>,
           currentValueD = \<lparr>randomNumberTime = 0, randomNumber = 0\<rparr>\<rparr>,
      fileELineNumber = 0,
      taskBRandomString = [],
      taskASuspended = False,
      randState = rs,
      fileE = file,
      console = []\<rparr>"

section \<open>Task B\<close>

definition charset :: string where
  "charset = ''abcdefghijklmnopqrstuvwxyzABCDEFGHIJKLMNOPQRSTUVWXYZ0123456789''"

definition charsetLength :: nat where
  "charsetLength = length charset"

text \<open>
  The \<open>for\<close> loop of \<open>generateRandomString\<close>: one \<open>rand()\<close> per character, the first
  character first. The terminating NUL is written right after them, so the characters
  drawn are the whole C string.
\<close>

fun generateRandomString_chars :: "nat \<Rightarrow> rand_t \<Rightarrow> string \<times> rand_t" where
  "generateRandomString_chars 0 rs = ([], rs)"
| "generateRandomString_chars (Suc n) rs =
     (let (r, rs1) = rand rs;
          charKey = r mod charsetLength;
          (cs, rs2) = generateRandomString_chars n rs1
      in (charset ! charKey # cs, rs2))"

text \<open>
  The buffer argument is \<open>None\<close> for a null pointer, else the string it holds. The
  \<open>length\<close> of the source is an \<open>int\<close>; its one caller passes 8, and a negative
  length is outside this model.
\<close>

definition generateRandomString :: "string option \<Rightarrow> nat \<Rightarrow> rand_t \<Rightarrow> string option \<times> rand_t" where
  "generateRandomString generatedRandomString len rs =
     (if len \<noteq> 0 then
        (case generatedRandomString of
           None \<Rightarrow> (None, rs)
         | Some old \<Rightarrow> (let (cs, rs') = generateRandomString_chars len rs in (Some cs, rs')))
      else (generatedRandomString, rs))"

text \<open>
  One iteration of the endless loop of \<open>privateTaskB\<close>; \<open>currentTickTime\<close> is what
  \<open>xTaskGetTickCount()\<close> returns. \<open>DEBUGPRINT\<close> expands to nothing. The token is the
  eight characters that \<open>generateRandomString\<close> draws, held as a value: the iteration is
  modelled as if \<open>taskBRandomString\<close> and \<open>stringPlacer\<close> had room for them and their
  NUL, which they have not (see the section on the char arrays).
\<close>

definition privateTaskB :: "TickType_t \<Rightarrow> state \<Rightarrow> error + state" where
  "privateTaskB currentTickTime s =
     (let (buf, rs1) =
            generateRandomString (Some (taskBRandomString s)) NUMBER_OF_ALPHANUMERIC_DIGITS
              (randState s);
          str = (case buf of Some cs \<Rightarrow> cs | None \<Rightarrow> taskBRandomString s)
      in case generateIntRandomNumber (SIZE_OF_THE_TASK_B_ARRAY - 1) rs1 of
           Inl e \<Rightarrow> Inl e
         | Inr (randomSlot, rs2) \<Rightarrow>
             Inr (s\<lparr>taskBStructure :=
                      (taskBStructure s)
                        [randomSlot := \<lparr>stringTime = currentTickTime, stringPlacer = str\<rparr>],
                    taskBRandomString := str,
                    randState := rs2\<rparr>))"

section \<open>Key C: capture\<close>

text \<open>
  E.txt is opened for reading first: that succeeds when the file exists. On the
  \<open>else\<close> branch the source calls \<open>fclose\<close> on the result even when it is \<open>NULL\<close>;
  the C standard leaves that undefined, and whether the runtime traps or returns is an
  input (\<open>fcloseNullReturns\<close>), as is the success of the second \<open>fopen\<close> (\<open>fopenOk\<close>),
  which \<open>configASSERT\<close> checks.
\<close>

definition writeToFileE :: "bool \<Rightarrow> bool \<Rightarrow> nat \<Rightarrow> state \<Rightarrow> error + state" where
  "writeToFileE fcloseNullReturns fopenOk slotToWrite s =
     (let e = valueEStructure s ! slotToWrite;
          line = \<lparr>lineNumber = fileELineNumber s,
                  lineStringTime = stringTime (randomValueB e),
                  lineStringPlacer = stringPlacer (randomValueB e),
                  lineRandomNumberTime = randomNumberTime (currentValueD e),
                  lineRandomNumber = randomNumber (currentValueD e)\<rparr>
      in case fileE s of
           Some old \<Rightarrow>
             if fileELineNumber s \<noteq> 0 then
               (if fopenOk
                then Inr (s\<lparr>fileE := Some (old @ [line]),
                           fileELineNumber := fileELineNumber s + 1\<rparr>)
                else Inl AssertFailed)
             else
               (if fopenOk
                then Inr (s\<lparr>fileE := Some [line], fileELineNumber := fileELineNumber s + 1\<rparr>)
                else Inl AssertFailed)
         | None \<Rightarrow>
             if \<not> fcloseNullReturns then Inl FcloseNull
             else if fopenOk
             then Inr (s\<lparr>fileE := Some [line], fileELineNumber := fileELineNumber s + 1\<rparr>)
             else Inl AssertFailed)"

text \<open>
  The \<open>while\<close> loop of \<open>handleInterruptC\<close> draws a slot of B until it finds one with a
  nonzero \<open>stringTime\<close>. Nothing bounds it: \<open>None\<close> is the loop that never ends.
\<close>

partial_function (option) handleInterruptC_findValidValueB ::
  "taskBStructure_t list \<Rightarrow> rand_t \<Rightarrow> (error + nat \<times> rand_t) option" where
  "handleInterruptC_findValidValueB B rs =
     (case generateIntRandomNumber SIZE_OF_THE_TASK_B_ARRAY rs of
        Inl e \<Rightarrow> Some (Inl e)
      | Inr (randomSlotB, rs') \<Rightarrow>
          if stringTime (B ! randomSlotB) = 0
          then handleInterruptC_findValidValueB B rs'
          else Some (Inr (randomSlotB, rs')))"

declare handleInterruptC_findValidValueB.simps [code]

text \<open>
  The handler of the key C. \<open>strcpy\<close> is the copy of the string of the slot of B as a
  value, under the same proviso as in \<open>privateTaskB\<close>; the timestamp and the two fields
  of \<open>currentValueD\<close> are plain assignments.
\<close>

definition handleInterruptC ::
  "TickType_t \<Rightarrow> bool \<Rightarrow> bool \<Rightarrow> state \<Rightarrow> (error + state) option" where
  "handleInterruptC currentTickTime fcloseNullReturns fopenOk s =
     (let valueDStructure =
            \<lparr>randomNumberTime = currentTickTime,
             randomNumber = currentRandomNumberFromTaskA s\<rparr>
      in case handleInterruptC_findValidValueB (taskBStructure s) (randState s) of
           None \<Rightarrow> None
         | Some (Inl e) \<Rightarrow> Some (Inl e)
         | Some (Inr (randomSlotB, rs1)) \<Rightarrow>
             (case generateIntRandomNumber (SIZE_OF_VALUE_E_STRUCTURE - 1) rs1 of
                Inl e \<Rightarrow> Some (Inl e)
              | Inr (randomSlotF, rs2) \<Rightarrow>
                  Some (writeToFileE fcloseNullReturns fopenOk randomSlotF
                    (s\<lparr>valueEStructure :=
                         (valueEStructure s)
                           [randomSlotF :=
                              \<lparr>randomValueB =
                                 \<lparr>stringTime = stringTime (taskBStructure s ! randomSlotB),
                                  stringPlacer = stringPlacer (taskBStructure s ! randomSlotB)\<rparr>,
                               currentValueD = valueDStructure\<rparr>],
                       randState := rs2\<rparr>))))"

section \<open>Key G: lookup\<close>

text \<open>
  The \<open>for\<close> loop of \<open>handleInterruptG\<close>, from index \<open>i\<close> on: it prints every slot
  whose number equals the input and goes on to the next index.
\<close>

function handleInterruptG_loop ::
  "nat \<Rightarrow> int64_t \<Rightarrow> valueE_t list \<Rightarrow> printed list \<times> bool \<Rightarrow> printed list \<times> bool" where
  "handleInterruptG_loop i userInputAValue F (out, userInputFound) =
     (if i < SIZE_OF_VALUE_E_STRUCTURE - 1 then
        handleInterruptG_loop (i + 1) userInputAValue F
          (if userInputAValue = randomNumber (currentValueD (F ! i))
           then (out @ [EValueFound (stringTime (randomValueB (F ! i)))
                          (stringPlacer (randomValueB (F ! i)))], True)
           else (out, userInputFound))
      else (out, userInputFound))"
  by pat_completeness auto
termination
  by (relation "measure (\<lambda>(i, q, F, r). (SIZE_OF_VALUE_E_STRUCTURE - 1) - i)") auto

declare handleInterruptG_loop.simps [simp del]

text \<open>
  \<open>userInputAValue\<close> is what \<open>scanf\<close> leaves in the variable. Task A is suspended while
  the handler runs and resumed at its end.
\<close>

definition handleInterruptG :: "int64_t \<Rightarrow> state \<Rightarrow> state" where
  "handleInterruptG userInputAValue s =
     (let s1 = s\<lparr>taskASuspended := True, console := console s @ [PleaseEnterCode]\<rparr>;
          (out, userInputFound) =
            handleInterruptG_loop 0 userInputAValue (valueEStructure s1) (console s1, False);
          out' = (if userInputFound = False then out @ [ValueNotFound userInputAValue] else out)
      in s1\<lparr>console := out', taskASuspended := False\<rparr>)"

section \<open>The keyboard task and a run of the program\<close>

text \<open>
  One iteration of the loop of \<open>keyboardTrackTask\<close>. \<open>key\<close> is \<open>None\<close> when \<open>_kbhit()\<close>
  finds no key, else the code that \<open>_getch()\<close> returns; the other arguments are what
  the handler that is called needs.
\<close>

definition keyboardTrackTask ::
  "int option \<Rightarrow> TickType_t \<Rightarrow> bool \<Rightarrow> bool \<Rightarrow> int64_t \<Rightarrow> state \<Rightarrow> (error + state) option" where
  "keyboardTrackTask key currentTickTime fcloseNullReturns fopenOk userInputAValue s =
     (case key of
        None \<Rightarrow> Some (Inr s)
      | Some keyboardKey \<Rightarrow>
          if keyboardKey = 67 \<or> keyboardKey = 99
          then handleInterruptC currentTickTime fcloseNullReturns fopenOk s
          else if keyboardKey = 71 \<or> keyboardKey = 103
          then Some (Inr (handleInterruptG userInputAValue s))
          else Some (Inr s))"

text \<open>
  A run of the program after \<open>main_payrange\<close>: the scheduler lets the three tasks take
  turns, here one loop iteration at a time, and a task that is suspended does not run. A
  failed assertion or a trap ends the run, and so does a capture that does not return.
\<close>

datatype step =
    RunTaskA
  | RunTaskB TickType_t
  | RunKeyboard "int option" TickType_t bool bool int64_t

fun runStep :: "step \<Rightarrow> state \<Rightarrow> (error + state) option" where
  "runStep RunTaskA s = (if taskASuspended s then Some (Inr s) else Some (privateTaskA s))"
| "runStep (RunTaskB currentTickTime) s = Some (privateTaskB currentTickTime s)"
| "runStep (RunKeyboard key currentTickTime fcloseNullReturns fopenOk userInputAValue) s =
     keyboardTrackTask key currentTickTime fcloseNullReturns fopenOk userInputAValue s"

fun run :: "step list \<Rightarrow> state \<Rightarrow> (error + state) option" where
  "run [] s = Some (Inr s)"
| "run (x # xs) s =
     (case runStep x s of
        None \<Rightarrow> None
      | Some (Inl e) \<Rightarrow> Some (Inl e)
      | Some (Inr s') \<Rightarrow> run xs s')"

text \<open>The steps of a run in which the key C is pressed, and their number.\<close>

fun isCapture :: "step \<Rightarrow> bool" where
  "isCapture (RunKeyboard (Some keyboardKey) t fc fo q) = (keyboardKey = 67 \<or> keyboardKey = 99)"
| "isCapture x = False"

definition captures :: "step list \<Rightarrow> nat" where
  "captures steps = length (filter isCapture steps)"

section \<open>The char arrays\<close>

text \<open>
  The sizes of the two \<open>char\<close> arrays as they are declared, \<open>taskBRandomString\<close> in
  \<open>privateTaskB\<close> and \<open>stringPlacer\<close> in \<open>taskBStructure_t\<close>.
\<close>

definition taskBRandomString_size :: nat where
  "taskBRandomString_size = NUMBER_OF_ALPHANUMERIC_DIGITS - 1"

definition stringPlacer_size :: nat where
  "stringPlacer_size = 8"

text \<open>
  The stores of \<open>generateRandomString\<close> into the array that it is given, as pairs of an
  index and the character stored there, in the order in which they are made: one store
  per iteration of the \<open>for\<close> loop, then the NUL at index \<open>length\<close>. \<open>strcpy\<close> stores the
  characters of its source and then the NUL in the same way.
\<close>

definition generateRandomString_stores :: "nat \<Rightarrow> rand_t \<Rightarrow> (nat \<times> char) list" where
  "generateRandomString_stores len rs =
     (if len \<noteq> 0
      then zip [0..<len] (fst (generateRandomString_chars len rs)) @ [(len, CHR 0x00)]
      else [])"

definition strcpy_stores :: "string \<Rightarrow> (nat \<times> char) list" where
  "strcpy_stores src = zip [0..<length src] src @ [(length src, CHR 0x00)]"

text \<open>The stores that fall outside an array of \<open>n\<close> elements.\<close>

definition outside :: "nat \<Rightarrow> (nat \<times> char) list \<Rightarrow> (nat \<times> char) list" where
  "outside n stores = filter (\<lambda>(i, c). \<not> i < n) stores"

section \<open>Notions for the statements\<close>

text \<open>
  The found lines among what was printed, and the timestamps that they carry.
\<close>

fun foundLines :: "printed list \<Rightarrow> printed list" where
  "foundLines [] = []"
| "foundLines (EValueFound t str # out) = EValueFound t str # foundLines out"
| "foundLines (p # out) = foundLines out"

fun foundTimes :: "printed list \<Rightarrow> TickType_t list" where
  "foundTimes [] = []"
| "foundTimes (EValueFound t str # out) = t # foundTimes out"
| "foundTimes (p # out) = foundTimes out"

text \<open>
  Of the result of a run: the pairs that E.txt holds, each as the timestamp of the token,
  the tick count of the capture and the number; and the timestamps of the found lines
  on the console.
\<close>

definition pairsLogged :: "(error + state) option \<Rightarrow> (TickType_t \<times> TickType_t \<times> int64_t) list" where
  "pairsLogged r =
     (case r of
        Some (Inr s) \<Rightarrow>
          (case fileE s of
             Some lines \<Rightarrow>
               map (\<lambda>l. (lineStringTime l, lineRandomNumberTime l, lineRandomNumber l)) lines
           | None \<Rightarrow> [])
      | _ \<Rightarrow> [])"

definition timesReported :: "(error + state) option \<Rightarrow> TickType_t list" where
  "timesReported r = (case r of Some (Inr s) \<Rightarrow> foundTimes (console s) | _ \<Rightarrow> [])"

text \<open>
  What \<open>handleInterruptG\<close> prints for a slot that it finds; the indices below
  \<open>SIZE_OF_VALUE_E_STRUCTURE - 1\<close>, in increasing order, whose number equals the input;
  and what one call of the handler adds to the console.
\<close>

definition foundLine :: "valueE_t \<Rightarrow> printed" where
  "foundLine e = EValueFound (stringTime (randomValueB e)) (stringPlacer (randomValueB e))"

definition matchingSlots :: "int64_t \<Rightarrow> valueE_t list \<Rightarrow> nat list" where
  "matchingSlots q F =
     filter (\<lambda>i. q = randomNumber (currentValueD (F ! i))) [0..<SIZE_OF_VALUE_E_STRUCTURE - 1]"

definition lookupOutput :: "int64_t \<Rightarrow> state \<Rightarrow> printed list" where
  "lookupOutput q s = drop (length (console s)) (console (handleInterruptG q s))"

text \<open>
  The record E that \<open>handleInterruptC\<close> forms from a slot of B, the tick count and the
  number of task A, and the line that \<open>writeToFileE\<close> prints for a counter value and a
  record.
\<close>

definition valueE_of :: "taskBStructure_t \<Rightarrow> TickType_t \<Rightarrow> int64_t \<Rightarrow> valueE_t" where
  "valueE_of b t a =
     \<lparr>randomValueB = \<lparr>stringTime = stringTime b, stringPlacer = stringPlacer b\<rparr>,
      currentValueD = \<lparr>randomNumberTime = t, randomNumber = a\<rparr>\<rparr>"

definition lineOf :: "int_t \<Rightarrow> valueE_t \<Rightarrow> lineE" where
  "lineOf n e =
     \<lparr>lineNumber = n,
      lineStringTime = stringTime (randomValueB e),
      lineStringPlacer = stringPlacer (randomValueB e),
      lineRandomNumberTime = randomNumberTime (currentValueD e),
      lineRandomNumber = randomNumber (currentValueD e)\<rparr>"

text \<open>
  The token that \<open>generateRandomString\<close> builds from the next
  \<open>NUMBER_OF_ALPHANUMERIC_DIGITS\<close> results of \<open>rand()\<close>: character \<open>i\<close> is the
  character of \<open>charset\<close> at the \<open>i\<close>-th result modulo the length of \<open>charset\<close>.
\<close>

definition tokenOf :: "rand_t \<Rightarrow> string" where
  "tokenOf rs =
     map (\<lambda>i. charset ! (snth rs i mod charsetLength)) [0..<NUMBER_OF_ALPHANUMERIC_DIGITS]"

text \<open>
  E.txt and the line counter after \<open>k\<close> captures of a run that found \<open>file\<close> on disk:
  the counter is \<open>k\<close>; before the first capture the file is as it was found, and after it
  the file holds \<open>k\<close> lines, numbered 0, 1, ..., \<open>k - 1\<close> in this order.
\<close>

definition logAfter :: "lineE list option \<Rightarrow> nat \<Rightarrow> state \<Rightarrow> bool" where
  "logAfter file k s =
     (fileELineNumber s = word_of_nat k \<and>
      (if k = 0 then fileE s = file
       else (case fileE s of
               None \<Rightarrow> False
             | Some lines \<Rightarrow> map lineNumber lines = map word_of_nat [0..<k])))"

section \<open>States and a run to evaluate\<close>

text \<open>
  B with one token, written at tick 10 into slot 2, and a state with this B in which
  task A has published 555555555555 and an empty E.txt is on disk.
\<close>

definition oneTokenB :: "taskBStructure_t list" where
  "oneTokenB =
     [\<lparr>stringTime = 0, stringPlacer = []\<rparr>, \<lparr>stringTime = 0, stringPlacer = []\<rparr>,
      \<lparr>stringTime = 10, stringPlacer = ''Ab12xyzQ''\<rparr>,
      \<lparr>stringTime = 0, stringPlacer = []\<rparr>, \<lparr>stringTime = 0, stringPlacer = []\<rparr>]"

definition oneTokenState :: "rand_t \<Rightarrow> state" where
  "oneTokenState rs =
     (main_payrange rs (Some []))
       \<lparr>currentRandomNumberFromTaskA := 555555555555, taskBStructure := oneTokenB\<rparr>"

text \<open>
  A state in which slots 1 and 4 of F hold the same number, paired with two tokens.
\<close>

definition twoMatchesState :: state where
  "twoMatchesState =
     (main_payrange (sconst 0) None)
       \<lparr>valueEStructure :=
          (valueEStructure (main_payrange (sconst 0) None))
            [1 := \<lparr>randomValueB = \<lparr>stringTime = 10, stringPlacer = ''Ab12xyzQ''\<rparr>,
                   currentValueD = \<lparr>randomNumberTime = 20, randomNumber = 555555555555\<rparr>\<rparr>,
             4 := \<lparr>randomValueB = \<lparr>stringTime = 15, stringPlacer = ''Zz99aaaB''\<rparr>,
                   currentValueD = \<lparr>randomNumberTime = 21, randomNumber = 555555555555\<rparr>\<rparr>]\<rparr>"

text \<open>
  A run from start-up, with no E.txt on disk: task B stores a token in slot 2 at tick 5
  and another in slot 0 at tick 10, task A publishes 104294967297, the key C is pressed
  at tick 20, when the search draws slot 2 of B, and again at tick 25, before task A
  runs again, when the search draws slot 0; then the key G, with 104294967297 as the
  input.
\<close>

definition twoTokensRand :: rand_t where
  "twoTokensRand =
     [0, 1, 2, 3, 4, 5, 6, 7, 2, 8, 9, 10, 11, 12, 13, 14, 15, 0, 1, 1, 2, 6, 0, 7]
       @- sconst 0"

definition twoTokensSteps :: "step list" where
  "twoTokensSteps =
     [RunTaskB 5, RunTaskB 10, RunTaskA,
      RunKeyboard (Some 67) 20 True True 0,
      RunKeyboard (Some 67) 25 True True 0,
      RunKeyboard (Some 71) 30 True True 104294967297]"

text \<open>
  B as \<open>oneTokenB\<close>, but with a token in slot 0 that task B wrote while the tick count
  was 0.
\<close>

definition tickZeroB :: "taskBStructure_t list" where
  "tickZeroB =
     [\<lparr>stringTime = 0, stringPlacer = ''eeeeeeee''\<rparr>, \<lparr>stringTime = 0, stringPlacer = []\<rparr>,
      \<lparr>stringTime = 10, stringPlacer = ''Ab12xyzQ''\<rparr>,
      \<lparr>stringTime = 0, stringPlacer = []\<rparr>, \<lparr>stringTime = 0, stringPlacer = []\<rparr>]"

text \<open>
  A run: E.txt holds a line of an earlier run; task B stores the token \<open>abcdefgh\<close> in
  slot 2 at tick 10, task A publishes 104294967297, the key C is pressed at tick 20 and
  again at tick 25, before task A runs again, and then the key G, with 104294967297 as
  the input.
\<close>

definition exampleRand :: rand_t where
  "exampleRand = [0, 1, 2, 3, 4, 5, 6, 7, 2, 1, 1, 2, 6, 0, 2, 7] @- sconst 0"

definition staleLog :: "lineE list" where
  "staleLog =
     [\<lparr>lineNumber = 41, lineStringTime = 5000, lineStringPlacer = ''Zz99aaaB'',
       lineRandomNumberTime = 7000, lineRandomNumber = 123456789012\<rparr>]"

definition exampleSteps :: "step list" where
  "exampleSteps =
     [RunTaskB 10, RunTaskA,
      RunKeyboard (Some 99) 20 True True 0,
      RunKeyboard None 21 True True 0,
      RunKeyboard (Some 67) 25 True True 0,
      RunKeyboard (Some 103) 30 True True 104294967297]"

section \<open>The start-up state and small facts\<close>

text \<open>
  The fields of the state at start-up; the two arrays written out, their lengths, and
  that B is empty.
\<close>

lemma main_payrange_fields:
  "currentRandomNumberFromTaskA (main_payrange rs file) = 0"
  "fileELineNumber (main_payrange rs file) = 0"
  "taskASuspended (main_payrange rs file) = False"
  "randState (main_payrange rs file) = rs"
  "fileE (main_payrange rs file) = file"
  "console (main_payrange rs file) = []"
  by (simp_all add: main_payrange_def)

lemma main_payrange_arrays:
  "taskBStructure (main_payrange rs file) =
     [\<lparr>stringTime = 0, stringPlacer = []\<rparr>, \<lparr>stringTime = 0, stringPlacer = []\<rparr>,
      \<lparr>stringTime = 0, stringPlacer = []\<rparr>, \<lparr>stringTime = 0, stringPlacer = []\<rparr>,
      \<lparr>stringTime = 0, stringPlacer = []\<rparr>]"
  "valueEStructure (main_payrange rs file) =
     [\<lparr>randomValueB = \<lparr>stringTime = 0, stringPlacer = []\<rparr>,
        currentValueD = \<lparr>randomNumberTime = 0, randomNumber = 0\<rparr>\<rparr>,
      \<lparr>randomValueB = \<lparr>stringTime = 0, stringPlacer = []\<rparr>,
        currentValueD = \<lparr>randomNumberTime = 0, randomNumber = 0\<rparr>\<rparr>,
      \<lparr>randomValueB = \<lparr>stringTime = 0, stringPlacer = []\<rparr>,
        currentValueD = \<lparr>randomNumberTime = 0, randomNumber = 0\<rparr>\<rparr>,
      \<lparr>randomValueB = \<lparr>stringTime = 0, stringPlacer = []\<rparr>,
        currentValueD = \<lparr>randomNumberTime = 0, randomNumber = 0\<rparr>\<rparr>,
      \<lparr>randomValueB = \<lparr>stringTime = 0, stringPlacer = []\<rparr>,
        currentValueD = \<lparr>randomNumberTime = 0, randomNumber = 0\<rparr>\<rparr>,
      \<lparr>randomValueB = \<lparr>stringTime = 0, stringPlacer = []\<rparr>,
        currentValueD = \<lparr>randomNumberTime = 0, randomNumber = 0\<rparr>\<rparr>,
      \<lparr>randomValueB = \<lparr>stringTime = 0, stringPlacer = []\<rparr>,
        currentValueD = \<lparr>randomNumberTime = 0, randomNumber = 0\<rparr>\<rparr>]"
  by (simp_all add: main_payrange_def numeral_eq_Suc)

lemma main_payrange_lengths:
  "length (taskBStructure (main_payrange rs file)) = 5"
  "length (valueEStructure (main_payrange rs file)) = 7"
  by (simp_all add: main_payrange_def)

lemma main_payrange_B_empty:
  "i < 5 \<Longrightarrow> stringTime (taskBStructure (main_payrange rs file) ! i) = 0"
  by (simp add: main_payrange_def)

text \<open>
  The indices that the loops visit, results of \<open>rand()\<close> taken from a stream that is
  written out, and the alphabet.
\<close>

lemma upt_0_6: "[0..<6] = [0, 1, 2, 3, 4, 5]"
  by (simp add: upt_rec)

lemma upt_0_8: "[0..<8] = [0, 1, 2, 3, 4, 5, 6, 7]"
  by (simp add: upt_rec)

lemma snth_Stream_numeral: "(x ## s) !! numeral k = s !! pred_numeral k"
  by (simp add: numeral_eq_Suc)

lemma sdrop_Stream_numeral: "sdrop (numeral k) (x ## s) = sdrop (pred_numeral k) s"
  by (simp add: numeral_eq_Suc)

lemma length_charset: "length charset = 62"
  by (simp add: charset_def)

lemma distinct_charset: "distinct charset"
  by (simp add: charset_def)

section \<open>Task A publishes twelve-digit values\<close>

text \<open>
  Two non-negative \<open>int\<close>s, one shifted left by 32 bits and joined with the other, make
  a non-negative 64-bit number, and the remainder plus the offset stays in range.
\<close>

lemma bit_nat_above_INT_MAX: "r \<le> INT_MAX \<Longrightarrow> 31 \<le> n \<Longrightarrow> \<not> bit (r::nat) n"
proof -
  assume a: "r \<le> INT_MAX" "31 \<le> n"
  have "(2::nat) ^ 31 \<le> 2 ^ n" using a(2) by (rule power_increasing) simp
  with a(1) have "r < 2 ^ n" by simp
  then show ?thesis by (simp add: bit_iff_odd)
qed

lemma two_draws_nonneg: 
  assumes "r1 \<le> INT_MAX" "r2 \<le> INT_MAX" 
  shows "0 \<le> sint (push_bit 32 (word_of_nat r1 :: int64_t) OR word_of_nat r2)"
proof -
  have "\<not> bit (push_bit 32 (word_of_nat r1 :: int64_t) OR word_of_nat r2) 63"
    using bit_nat_above_INT_MAX[OF assms(1), of 31] bit_nat_above_INT_MAX[OF assms(2), of 63]
    by (simp add: bit_or_iff bit_push_bit_iff bit_of_nat_iff)
  then show ?thesis
    using bit_last_iff[of "push_bit 32 (word_of_nat r1 :: int64_t) OR word_of_nat r2"] by simp
qed

lemma sint_int64_of_int:
  "0 \<le> z \<Longrightarrow> z < 9223372036854775808 \<Longrightarrow> sint (word_of_int z :: int64_t) = z"
  by (simp add: sint_sbintrunc' signed_take_bit_int_eq_self)

lemma reduce_into_12_digits: 
  assumes "0 \<le> (x::int)"
  shows "100000000000 \<le> sint (word_of_int (x smod 899999999999) + 100000000000 :: int64_t)
       \<and> sint (word_of_int (x smod 899999999999) + 100000000000 :: int64_t) \<le> 999999999998"
proof -
  let ?y = "x smod 899999999999"
  have y: "0 \<le> ?y" "?y < 899999999999" using assms smod_int_compares[of x 899999999999] by auto
  have eq: "(word_of_int ?y + 100000000000 :: int64_t) = word_of_int (?y + 100000000000)" by simp
  have "sint (word_of_int (?y + 100000000000) :: int64_t) = ?y + 100000000000"
    using y by (intro sint_int64_of_int) auto
  then show ?thesis unfolding eq using y by simp
qed

text \<open>
  C6. Every iteration of task A publishes a value between 100000000000 and 999999999999:
  when the two \<open>rand()\<close> results are non-negative \<open>int\<close>s, the iteration passes its
  assertion, and the value it stores in \<open>currentRandomNumberFromTaskA\<close> and prints is a
  signed 64-bit number in that range, so it has twelve decimal digits.
\<close>

theorem privateTaskA_FastValue_range:
  assumes "shd (randState s) \<le> INT_MAX" and "shd (stl (randState s)) \<le> INT_MAX"
  shows "\<exists>s'. privateTaskA s = Inr s'
           \<and> 100000000000 \<le> sint (currentRandomNumberFromTaskA s')
           \<and> sint (currentRandomNumberFromTaskA s') \<le> 999999999999
           \<and> console s' = console s @ [ARandomNumber (currentRandomNumberFromTaskA s')]"
proof -
  let ?g = "push_bit 32 (word_of_nat (shd (randState s)) :: int64_t)
              OR word_of_nat (shd (stl (randState s)))"
  let ?v = "word_of_int (sint ?g smod 899999999999) + 100000000000 :: int64_t"
  have nonneg: "0 \<le> sint ?g" using assms by (rule two_draws_nonneg)
  have range: "100000000000 \<le> sint ?v" "sint ?v \<le> 999999999998"
    using reduce_into_12_digits[OF nonneg] by simp_all
  have "sint ?v < sint (1000000000000 :: int64_t)" using range(2) by simp
  then have assert: "?v <s 1000000000000" by (simp only: word_sless_alt)
  have "privateTaskA s = Inr (s\<lparr>currentRandomNumberFromTaskA := ?v,
          randState := stl (stl (randState s)), console := console s @ [ARandomNumber ?v]\<rparr>)"
    using assert by (simp add: privateTaskA_def rand_def Let_def)
  then show ?thesis using range by simp
qed

text \<open>
  With \<open>rand()\<close> returning 32767 twice, at start-up.
\<close>

theorem privateTaskA_FastValue_range_witness:
  "shd (randState (main_payrange (32767 ## 32767 ## sconst 0) None)) \<le> INT_MAX
   \<and> shd (stl (randState (main_payrange (32767 ## 32767 ## sconst 0) None))) \<le> INT_MAX
   \<and> (\<exists>s'. privateTaskA (main_payrange (32767 ## 32767 ## sconst 0) None) = Inr s'
           \<and> 100000000000 \<le> sint (currentRandomNumberFromTaskA s')
           \<and> sint (currentRandomNumberFromTaskA s') \<le> 999999999999
           \<and> console s' = [ARandomNumber (currentRandomNumberFromTaskA s')])"
  using privateTaskA_FastValue_range [of "main_payrange (32767 ## 32767 ## sconst 0) None"]
  by (simp add: main_payrange_def)

section \<open>What an iteration of task B does\<close>

text \<open>
  One iteration of task B in closed form: eight results of \<open>rand()\<close> make the token, the
  ninth, modulo 4, is the slot.
\<close>

lemma generateRandomString_chars_eq:
  "generateRandomString_chars n rs =
     (map (\<lambda>i. charset ! (snth rs i mod charsetLength)) [0..<n], sdrop n rs)"
proof (induction n arbitrary: rs)
  case 0
  show ?case by simp
next
  case (Suc n)
  have "map (\<lambda>i. charset ! (snth rs i mod charsetLength)) [0..<Suc n]
      = charset ! (shd rs mod charsetLength)
          # map (\<lambda>i. charset ! (snth (stl rs) i mod charsetLength)) [0..<n]"
    by (simp only: map_upt_Suc snth.simps)
  then show ?case using Suc.IH[of "stl rs"]
    by (simp add: rand_def del: upt_Suc)
qed

lemma privateTaskB_eq:
  "privateTaskB t s =
     Inr (s\<lparr>taskBStructure :=
              (taskBStructure s)
                [snth (randState s) 8 mod 4 :=
                   \<lparr>stringTime = t, stringPlacer = tokenOf (randState s)\<rparr>],
            taskBRandomString := tokenOf (randState s),
            randState := sdrop 9 (randState s)\<rparr>)"
proof -
  have "sdrop 9 (randState s) = stl (sdrop 8 (randState s))"
    by (simp add: numeral_eq_Suc)
  moreover have "shd (sdrop 8 (randState s)) = snth (randState s) 8"
    by (simp add: sdrop_simps)
  ultimately show ?thesis
    by (simp add: privateTaskB_def generateRandomString_def generateRandomString_chars_eq
      generateIntRandomNumber_def rand_def tokenOf_def Let_def)
qed

lemma tokenOf_length: "length (tokenOf rs) = 8"
  by (simp add: tokenOf_def)

lemma tokenOf_alphabet: "set (tokenOf rs) \<subseteq> set charset"
proof -
  have "charset ! (k mod charsetLength) \<in> set charset" for k
    by (rule nth_mem) (simp add: charsetLength_def length_charset)
  then show ?thesis by (auto simp: tokenOf_def)
qed

lemma tokenOf_sconst_4: "tokenOf (sconst 4) = ''eeeeeeee''"
  by (simp add: tokenOf_def charsetLength_def charset_def upt_rec)

text \<open>
  C2 claims that every index of B from 0 to 4, index 4 included, can be the target of the
  write of task B. \<open>privateTaskB\<close> draws the slot with
  \<open>generateIntRandomNumber(SIZE_OF_THE_TASK_B_ARRAY - 1)\<close>, that is \<open>rand() % 4\<close>: every
  iteration overwrites one of the slots 0 to 3, and slot 4 holds what it held before.
\<close>

theorem privateTaskB_never_writes_slot_4:
  "\<exists>s'. privateTaskB t s = Inr s'
      \<and> taskBStructure s' ! 4 = taskBStructure s ! 4
      \<and> (\<exists>randomSlot e. randomSlot < 4
            \<and> taskBStructure s' = (taskBStructure s)[randomSlot := e])"
proof -
  let ?slot = "snth (randState s) 8 mod 4"
  let ?e = "\<lparr>stringTime = t, stringPlacer = tokenOf (randState s)\<rparr>"
  let ?s' = "s\<lparr>taskBStructure := (taskBStructure s)[?slot := ?e],
               taskBRandomString := tokenOf (randState s),
               randState := sdrop 9 (randState s)\<rparr>"
  have lt: "?slot < 4" by simp
  then have "?slot \<noteq> 4" by linarith
  then have "taskBStructure ?s' ! 4 = taskBStructure s ! 4" by simp
  moreover have "taskBStructure ?s' = (taskBStructure s)[?slot := ?e]" by simp
  moreover have "privateTaskB t s = Inr ?s'" by (rule privateTaskB_eq)
  ultimately show ?thesis using lt by blast
qed

text \<open>
  The token in full, and the stores of \<open>generateRandomString\<close> when it is called with
  \<open>NUMBER_OF_ALPHANUMERIC_DIGITS\<close>, as \<open>privateTaskB\<close> calls it.
\<close>

lemma tokenOf_eq:
  "tokenOf rs =
     [charset ! (snth rs 0 mod charsetLength), charset ! (snth rs 1 mod charsetLength),
      charset ! (snth rs 2 mod charsetLength), charset ! (snth rs 3 mod charsetLength),
      charset ! (snth rs 4 mod charsetLength), charset ! (snth rs 5 mod charsetLength),
      charset ! (snth rs 6 mod charsetLength), charset ! (snth rs 7 mod charsetLength)]"
  by (simp add: tokenOf_def upt_0_8)

lemma generateRandomString_stores_8:
  "generateRandomString_stores NUMBER_OF_ALPHANUMERIC_DIGITS rs
     = zip [0, 1, 2, 3, 4, 5, 6, 7] (tokenOf rs) @ [(8, CHR 0x00)]"
proof -
  have "fst (generateRandomString_chars 8 rs) = tokenOf rs"
    by (simp add: generateRandomString_chars_eq tokenOf_def)
  then show ?thesis by (simp add: generateRandomString_stores_def upt_0_8)
qed

text \<open>
  C7 claims that every token that task B generates and stores is a string of exactly 7
  characters of the alphabet. \<open>privateTaskB\<close> declares \<open>taskBRandomString\<close> with
  \<open>NUMBER_OF_ALPHANUMERIC_DIGITS - 1\<close> = 7 elements and calls \<open>generateRandomString\<close>
  with the length \<open>NUMBER_OF_ALPHANUMERIC_DIGITS\<close> = 8: whatever \<open>rand()\<close> returns, the
  call makes nine stores, at the indices 0 to 8, and the last two, the eighth character
  and the NUL, fall outside the array. \<open>strcpy\<close> of eight characters into
  \<open>stringPlacer[8]\<close> then puts the NUL outside that array as well. The arrays have room
  for a string of 6 and of 7 characters and its NUL, and the call asks for 8: what a slot
  shows afterwards depends on what lies next to the arrays in memory.
\<close>

theorem generateRandomString_overruns_buffers:
  "map fst (generateRandomString_stores NUMBER_OF_ALPHANUMERIC_DIGITS rs)
     = [0, 1, 2, 3, 4, 5, 6, 7, 8]
   \<and> outside taskBRandomString_size
        (generateRandomString_stores NUMBER_OF_ALPHANUMERIC_DIGITS rs)
     = [(7, charset ! (snth rs 7 mod charsetLength)), (8, CHR 0x00)]
   \<and> outside stringPlacer_size (strcpy_stores (tokenOf rs)) = [(8, CHR 0x00)]"
  unfolding generateRandomString_stores_8 strcpy_stores_def tokenOf_eq
  by (simp add: outside_def taskBRandomString_size_def stringPlacer_size_def upt_0_8)

section \<open>The search for a slot of B\<close>

text \<open>
  One unfolding of the \<open>while\<close> loop; what it returns when it returns; that it does not
  return when the five timestamps are 0; that only the timestamps decide what it does;
  and that it stops at the first draw that lands on a nonzero timestamp.
\<close>

lemma findValidValueB_step:
  "handleInterruptC_findValidValueB B rs =
     (if stringTime (B ! (shd rs mod 5)) = 0
      then handleInterruptC_findValidValueB B (stl rs)
      else Some (Inr (shd rs mod 5, stl rs)))"
  by (subst handleInterruptC_findValidValueB.simps)
     (simp add: generateIntRandomNumber_def rand_def)

lemma findValidValueB_Some:
  assumes "handleInterruptC_findValidValueB B rs = Some res"
  shows "\<exists>randomSlotB rs'. res = Inr (randomSlotB, rs') \<and> randomSlotB < 5
           \<and> stringTime (B ! randomSlotB) \<noteq> 0"
proof (rule handleInterruptC_findValidValueB.raw_induct
    [where P = "\<lambda>B rs res. \<exists>randomSlotB rs'. res = Inr (randomSlotB, rs') \<and> randomSlotB < 5
           \<and> stringTime (B ! randomSlotB) \<noteq> 0", OF _ assms])
  fix findB :: "taskBStructure_t list \<Rightarrow> rand_t \<Rightarrow> (error + nat \<times> rand_t) option"
    and B rs res
  assume IH: "\<And>B rs res. findB B rs = Some res \<Longrightarrow>
      \<exists>randomSlotB rs'. res = Inr (randomSlotB, rs') \<and> randomSlotB < 5
           \<and> stringTime (B ! randomSlotB) \<noteq> 0"
    and step: "(case generateIntRandomNumber SIZE_OF_THE_TASK_B_ARRAY rs of
      Inl e \<Rightarrow> Some (Inl e)
      | Inr (randomSlotB, rs') \<Rightarrow>
          if stringTime (B ! randomSlotB) = 0
          then findB B rs'
          else Some (Inr (randomSlotB, rs'))) = Some res"
  show "\<exists>randomSlotB rs'. res = Inr (randomSlotB, rs') \<and> randomSlotB < 5
           \<and> stringTime (B ! randomSlotB) \<noteq> 0"
  proof (cases "stringTime (B ! (shd rs mod 5)) = 0")
    case True
    with step have "findB B (stl rs) = Some res"
      by (simp add: generateIntRandomNumber_def rand_def)
    then show ?thesis by (rule IH)
  next
    case False
    with step have "res = Inr (shd rs mod 5, stl rs)"
      by (simp add: generateIntRandomNumber_def rand_def)
    with False show ?thesis by simp
  qed
qed

lemma findValidValueB_all_empty:
  assumes "\<And>i. i < 5 \<Longrightarrow> stringTime (B ! i) = 0"
  shows "handleInterruptC_findValidValueB B rs = None"
proof (cases "handleInterruptC_findValidValueB B rs")
  case None then show ?thesis .
next
  case (Some res)
  from findValidValueB_Some[OF Some] assms show ?thesis by auto
qed

lemma findValidValueB_cong_Some:
  assumes "handleInterruptC_findValidValueB B rs = Some res"
  shows "\<forall>B'. (\<forall>i<5. stringTime (B ! i) = stringTime (B' ! i)) \<longrightarrow>
           handleInterruptC_findValidValueB B' rs = Some res"
proof (rule handleInterruptC_findValidValueB.raw_induct
    [where P = "\<lambda>B rs res. \<forall>B'. (\<forall>i<5. stringTime (B ! i) = stringTime (B' ! i)) \<longrightarrow>
           handleInterruptC_findValidValueB B' rs = Some res", OF _ assms])
  fix findB :: "taskBStructure_t list \<Rightarrow> rand_t \<Rightarrow> (error + nat \<times> rand_t) option"
    and B rs res
  assume IH: "\<And>B rs res. findB B rs = Some res \<Longrightarrow>
      \<forall>B'. (\<forall>i<5. stringTime (B ! i) = stringTime (B' ! i)) \<longrightarrow>
           handleInterruptC_findValidValueB B' rs = Some res"
    and step: "(case generateIntRandomNumber SIZE_OF_THE_TASK_B_ARRAY rs of
      Inl e \<Rightarrow> Some (Inl e)
      | Inr (randomSlotB, rs') \<Rightarrow>
          if stringTime (B ! randomSlotB) = 0
          then findB B rs'
          else Some (Inr (randomSlotB, rs'))) = Some res"
  show "\<forall>B'. (\<forall>i<5. stringTime (B ! i) = stringTime (B' ! i)) \<longrightarrow>
           handleInterruptC_findValidValueB B' rs = Some res"
  proof (intro allI impI)
    fix B' :: "taskBStructure_t list" assume same: "\<forall>i<5. stringTime (B ! i) = stringTime (B' ! i)"
    have slot: "stringTime (B' ! (shd rs mod 5)) = stringTime (B ! (shd rs mod 5))"
      using same by simp
    show "handleInterruptC_findValidValueB B' rs = Some res"
    proof (cases "stringTime (B ! (shd rs mod 5)) = 0")
      case True
      with step have "findB B (stl rs) = Some res"
        by (simp add: generateIntRandomNumber_def rand_def)
      with IH same have "handleInterruptC_findValidValueB B' (stl rs) = Some res" by blast
      with True slot show ?thesis by (subst findValidValueB_step) simp
    next
      case False
      with step have "res = Inr (shd rs mod 5, stl rs)"
        by (simp add: generateIntRandomNumber_def rand_def)
      with False slot show ?thesis by (subst findValidValueB_step) simp
    qed
  qed
qed

lemma findValidValueB_cong:
  assumes "\<forall>i<5. stringTime (B ! i) = stringTime (B' ! i)"
  shows "handleInterruptC_findValidValueB B rs = handleInterruptC_findValidValueB B' rs"
proof (cases "handleInterruptC_findValidValueB B rs")
  case (Some res)
  with findValidValueB_cong_Some[OF Some] assms show ?thesis by simp
next
  case None
  show ?thesis
  proof (cases "handleInterruptC_findValidValueB B' rs")
    case None': None
    with None show ?thesis by simp
  next
    case (Some res)
    from assms have "\<forall>i<5. stringTime (B' ! i) = stringTime (B ! i)" by simp
    with findValidValueB_cong_Some[OF Some] have "handleInterruptC_findValidValueB B rs = Some res"
      by blast
    with None show ?thesis by simp
  qed
qed

lemma findValidValueB_first_hit:
  assumes "\<forall>k<n. stringTime (B ! (snth rs k mod 5)) = 0"
    and "stringTime (B ! (snth rs n mod 5)) \<noteq> 0"
  shows "handleInterruptC_findValidValueB B rs = Some (Inr (snth rs n mod 5, sdrop (Suc n) rs))"
  using assms
proof (induction n arbitrary: rs)
  case 0
  then show ?case by (subst findValidValueB_step) simp
next
  case (Suc n)
  from Suc.prems(1) have hd0: "stringTime (B ! (shd rs mod 5)) = 0" by (metis snth.simps(1) zero_less_Suc)
  have "\<forall>k<n. stringTime (B ! (snth (stl rs) k mod 5)) = 0"
    using Suc.prems(1) by (metis Suc_less_eq snth.simps(2))
  moreover have "stringTime (B ! (snth (stl rs) n mod 5)) \<noteq> 0" using Suc.prems(2) by simp
  ultimately have "handleInterruptC_findValidValueB B (stl rs)
      = Some (Inr (snth (stl rs) n mod 5, sdrop (Suc n) (stl rs)))" by (rule Suc.IH)
  with hd0 show ?case by (subst findValidValueB_step) simp
qed

section \<open>What a capture does\<close>

text \<open>
  What a capture that returns a state has done: the search returned a slot of B with a
  nonzero timestamp, the record went into slot \<open>rand() % 6\<close> of F, and
  \<open>writeToFileE\<close> put its line into E.txt and counted it.
\<close>

lemma writeToFileE_Inr:
  assumes "writeToFileE fc fo slot s = Inr s'"
  shows "s' = s\<lparr>fileE := Some ((case fileE s of None \<Rightarrow> []
                                   | Some old \<Rightarrow> if fileELineNumber s \<noteq> 0 then old else [])
                                 @ [lineOf (fileELineNumber s) (valueEStructure s ! slot)]),
                fileELineNumber := fileELineNumber s + 1\<rparr>"
  using assms
  by (auto simp: writeToFileE_def lineOf_def Let_def split: option.splits if_splits)

lemma handleInterruptC_Inr:
  assumes "handleInterruptC t fc fo s = Some (Inr s')"
  shows "\<exists>randomSlotB rs1.
           handleInterruptC_findValidValueB (taskBStructure s) (randState s)
             = Some (Inr (randomSlotB, rs1))
         \<and> randomSlotB < 5 \<and> stringTime (taskBStructure s ! randomSlotB) \<noteq> 0
         \<and> writeToFileE fc fo (shd rs1 mod 6)
              (s\<lparr>valueEStructure := (valueEStructure s)
                     [shd rs1 mod 6 := valueE_of (taskBStructure s ! randomSlotB) t
                                         (currentRandomNumberFromTaskA s)],
                 randState := stl rs1\<rparr>) = Inr s'"
proof (cases "handleInterruptC_findValidValueB (taskBStructure s) (randState s)")
  case None
  with assms show ?thesis by (simp add: handleInterruptC_def)
next
  case (Some res)
  from findValidValueB_Some[OF Some] obtain randomSlotB rs1 where
    res: "res = Inr (randomSlotB, rs1)" and b: "randomSlotB < 5"
      "stringTime (taskBStructure s ! randomSlotB) \<noteq> 0" by blast
  from assms Some res have "writeToFileE fc fo (shd rs1 mod 6)
              (s\<lparr>valueEStructure := (valueEStructure s)
                     [shd rs1 mod 6 := valueE_of (taskBStructure s ! randomSlotB) t
                                         (currentRandomNumberFromTaskA s)],
                 randState := stl rs1\<rparr>) = Inr s'"
    by (simp add: handleInterruptC_def generateIntRandomNumber_def rand_def valueE_of_def)
  with Some res b show ?thesis by blast
qed

lemma handleInterruptC_None:
  "handleInterruptC t fc fo s = None \<longleftrightarrow>
     handleInterruptC_findValidValueB (taskBStructure s) (randState s) = None"
proof (cases "handleInterruptC_findValidValueB (taskBStructure s) (randState s)")
  case None
  then show ?thesis by (simp add: handleInterruptC_def)
next
  case (Some res)
  from findValidValueB_Some[OF Some] obtain randomSlotB rs1 where
    res: "res = Inr (randomSlotB, rs1)" by blast
  with Some show ?thesis
    by (simp add: handleInterruptC_def generateIntRandomNumber_def rand_def)
qed

text \<open>
  A capture returns when a draw of its search lands on a nonzero timestamp and E.txt can
  be opened for writing.
\<close>

lemma writeToFileE_returns:
  assumes "fo" and "fileE s \<noteq> None \<or> fc"
  shows "\<exists>s'. writeToFileE fc fo slot s = Inr s'"
  using assms by (auto simp: writeToFileE_def Let_def split: option.splits)

lemma handleInterruptC_returns:
  assumes "\<forall>k<n. stringTime (taskBStructure s ! (snth (randState s) k mod 5)) = 0"
    and "stringTime (taskBStructure s ! (snth (randState s) n mod 5)) \<noteq> 0"
    and "fo" and "fileE s \<noteq> None \<or> fc"
  shows "\<exists>s'. handleInterruptC t fc fo s = Some (Inr s')"
proof -
  let ?rs1 = "sdrop (Suc n) (randState s)"
  let ?s1 = "s\<lparr>valueEStructure := (valueEStructure s)
                     [shd ?rs1 mod 6 :=
                        \<lparr>randomValueB =
                           \<lparr>stringTime = stringTime (taskBStructure s ! (snth (randState s) n mod 5)),
                            stringPlacer = stringPlacer (taskBStructure s ! (snth (randState s) n mod 5))\<rparr>,
                         currentValueD = \<lparr>randomNumberTime = t,
                            randomNumber = currentRandomNumberFromTaskA s\<rparr>\<rparr>],
                 randState := stl ?rs1\<rparr>"
  have search: "handleInterruptC_findValidValueB (taskBStructure s) (randState s)
      = Some (Inr (snth (randState s) n mod 5, ?rs1))"
    by (rule findValidValueB_first_hit[OF assms(1,2)])
  have "fileE ?s1 \<noteq> None \<or> fc" using assms(4) by simp
  from writeToFileE_returns[OF assms(3) this] obtain s' where
    "writeToFileE fc fo (shd ?rs1 mod 6) ?s1 = Inr s'" by blast
  then have "handleInterruptC t fc fo s = Some (Inr s')"
    by (simp add: handleInterruptC_def search generateIntRandomNumber_def rand_def)
  then show ?thesis by blast
qed

text \<open>
  A capture that returns has put the record it formed into a slot of F below 6 and its
  line at the end of E.txt.
\<close>

lemma handleInterruptC_effect:
  assumes "handleInterruptC t fc fo s = Some (Inr s')"
    and "length (valueEStructure s) = SIZE_OF_VALUE_E_STRUCTURE"
  shows "\<exists>randomSlotB randomSlotF kept.
      randomSlotB < 5 \<and> stringTime (taskBStructure s ! randomSlotB) \<noteq> 0 \<and> randomSlotF < 6
    \<and> valueEStructure s' ! randomSlotF
        = valueE_of (taskBStructure s ! randomSlotB) t (currentRandomNumberFromTaskA s)
    \<and> fileE s' = Some (kept @ [lineOf (fileELineNumber s)
          (valueE_of (taskBStructure s ! randomSlotB) t (currentRandomNumberFromTaskA s))])"
proof -
  let ?a = "currentRandomNumberFromTaskA s"
  from handleInterruptC_Inr[OF assms(1)] obtain randomSlotB rs1 where
    b: "randomSlotB < 5" "stringTime (taskBStructure s ! randomSlotB) \<noteq> 0"
    and w: "writeToFileE fc fo (shd rs1 mod 6)
              (s\<lparr>valueEStructure := (valueEStructure s)
                     [shd rs1 mod 6 := valueE_of (taskBStructure s ! randomSlotB) t ?a],
                 randState := stl rs1\<rparr>) = Inr s'" by blast
  let ?f = "shd rs1 mod 6"
  let ?e = "valueE_of (taskBStructure s ! randomSlotB) t ?a"
  let ?s1 = "s\<lparr>valueEStructure := (valueEStructure s)[?f := ?e], randState := stl rs1\<rparr>"
  let ?kept = "case fileE ?s1 of None \<Rightarrow> []
               | Some old \<Rightarrow> if fileELineNumber ?s1 \<noteq> 0 then old else []"
  have f: "?f < 6" by simp
  with assms(2) have at: "(valueEStructure s)[?f := ?e] ! ?f = ?e" by simp
  have s': "s' = ?s1\<lparr>fileE := Some (?kept @ [lineOf (fileELineNumber ?s1) (valueEStructure ?s1 ! ?f)]),
                     fileELineNumber := fileELineNumber ?s1 + 1\<rparr>"
    by (rule writeToFileE_Inr[OF w])
  have F: "valueEStructure s' = (valueEStructure s)[?f := ?e]" by (subst s') simp
  have slot: "valueEStructure s' ! ?f = ?e" by (simp only: F at)
  have log: "fileE s' = Some (?kept @ [lineOf (fileELineNumber s) ?e])"
    by (subst s') (simp add: at)
  show ?thesis
    by (rule exI[of _ randomSlotB], rule exI[of _ ?f], rule exI[of _ ?kept])
       (intro conjI b f slot log)
qed

text \<open>A capture evaluated: the draws 0 and 4 find empty slots, 2 finds the token, 6 gives slot 0 of F.\<close>

lemma oneTokenState_fields:
  "taskBStructure (oneTokenState rs) = oneTokenB"
  "randState (oneTokenState rs) = rs"
  "currentRandomNumberFromTaskA (oneTokenState rs) = 555555555555"
  "fileE (oneTokenState rs) = Some []"
  "fileELineNumber (oneTokenState rs) = 0"
  "console (oneTokenState rs) = []"
  "valueEStructure (oneTokenState rs) = valueEStructure (main_payrange rs (Some []))"
  by (simp_all add: oneTokenState_def main_payrange_def)

lemma oneTokenB_search:
  "handleInterruptC_findValidValueB oneTokenB (0 ## 4 ## 2 ## rs) = Some (Inr (2, rs))"
  by (simp add: findValidValueB_step oneTokenB_def)

lemma oneTokenState_capture:
  "handleInterruptC 20 True True (oneTokenState (0 ## 4 ## 2 ## 6 ## rs)) =
     Some (Inr ((oneTokenState rs)
       \<lparr>valueEStructure := (valueEStructure (oneTokenState rs))
            [0 := valueE_of (oneTokenB ! 2) 20 555555555555],
        fileE := Some [lineOf 0 (valueE_of (oneTokenB ! 2) 20 555555555555)],
        fileELineNumber := 1\<rparr>))"
  by (simp add: handleInterruptC_def oneTokenState_fields oneTokenB_search
      generateIntRandomNumber_def rand_def writeToFileE_def lineOf_def valueE_of_def
      main_payrange_arrays)
     (simp add: oneTokenState_def main_payrange_def numeral_eq_Suc)

lemma oneTokenB_occupied: "b < 5 \<Longrightarrow> stringTime (oneTokenB ! b) \<noteq> 0 \<Longrightarrow> b = 2"
  by (auto simp: oneTokenB_def nth_Cons' split: if_splits)

lemma oneTokenB_2: "oneTokenB ! 2 = \<lparr>stringTime = 10, stringPlacer = ''Ab12xyzQ''\<rparr>"
  by (simp add: oneTokenB_def)

text \<open>
  C3 claims that every index of F from 0 to 6, index 6 included, can be the destination
  of a capture. \<open>handleInterruptC\<close> draws the destination with
  \<open>generateIntRandomNumber(SIZE_OF_VALUE_E_STRUCTURE - 1)\<close>, that is \<open>rand() % 6\<close>:
  whenever a capture returns, the slot it has overwritten is one of 0 to 5, and slot 6
  holds what it held before.
\<close>

theorem handleInterruptC_never_writes_slot_6:
  assumes "handleInterruptC t fc fo s = Some (Inr s')"
  shows "valueEStructure s' ! 6 = valueEStructure s ! 6
       \<and> (\<exists>randomSlotF e. randomSlotF < 6
            \<and> valueEStructure s' = (valueEStructure s)[randomSlotF := e])"
proof -
  from handleInterruptC_Inr[OF assms] obtain randomSlotB rs1 where
    w: "writeToFileE fc fo (shd rs1 mod 6)
              (s\<lparr>valueEStructure := (valueEStructure s)
                     [shd rs1 mod 6 := valueE_of (taskBStructure s ! randomSlotB) t
                                         (currentRandomNumberFromTaskA s)],
                 randState := stl rs1\<rparr>) = Inr s'" by blast
  have F: "valueEStructure s' = (valueEStructure s)
                     [shd rs1 mod 6 := valueE_of (taskBStructure s ! randomSlotB) t
                                         (currentRandomNumberFromTaskA s)]"
    by (subst writeToFileE_Inr[OF w]) simp
  have lt: "shd rs1 mod 6 < 6" by simp
  then have "shd rs1 mod 6 \<noteq> 6" by linarith
  then have "valueEStructure s' ! 6 = valueEStructure s ! 6" unfolding F by simp
  with F lt show ?thesis by blast
qed

text \<open>
  The capture evaluated above: the draw 6 for the destination gives slot 0, and slot 6
  is as before.
\<close>

theorem handleInterruptC_never_writes_slot_6_witness:
  "\<exists>s'. handleInterruptC 20 True True (oneTokenState (0 ## 4 ## 2 ## 6 ## sconst 0)) = Some (Inr s')
      \<and> valueEStructure s' ! 6 = valueEStructure (oneTokenState (0 ## 4 ## 2 ## 6 ## sconst 0)) ! 6
      \<and> valueEStructure s' ! 0 = valueE_of (oneTokenB ! 2) 20 555555555555"
  using handleInterruptC_never_writes_slot_6 [OF oneTokenState_capture [of "sconst 0"]]
  by (simp add: oneTokenState_capture oneTokenState_fields main_payrange_arrays)

section \<open>A capture while B is empty\<close>

text \<open>
  C4, as amended: when the timestamps of all five slots of B are 0, a capture does not
  return. Its search for a slot goes on drawing without end, and it reports nothing.
\<close>

theorem handleInterruptC_empty_B_never_returns:
  assumes "\<forall>i<5. stringTime (taskBStructure s ! i) = 0"
  shows "handleInterruptC t fc fo s = None"
proof -
  have "handleInterruptC_findValidValueB (taskBStructure s) (randState s) = None"
    using assms by (intro findValidValueB_all_empty) simp
  then show ?thesis by (simp add: handleInterruptC_None)
qed

text \<open>
  C4 as stated, that the capture stops after a bounded number of draws and reports that
  it is unavailable, fails at start-up, where B is empty: the capture has no result.
\<close>

theorem handleInterruptC_capture_unavailable_counterexample:
  "handleInterruptC 20 True True (main_payrange (sconst 0) (Some [])) = None"
proof -
  have "handleInterruptC_findValidValueB
          (taskBStructure (main_payrange (sconst 0) (Some [])))
          (randState (main_payrange (sconst 0) (Some []))) = None"
    by (rule findValidValueB_all_empty) (rule main_payrange_B_empty)
  then show ?thesis by (simp add: handleInterruptC_None)
qed

text \<open>
  An iteration of task B at tick count 0 stores its token with the timestamp 0, so B
  still counts as empty after it, and a capture that follows does not return.
\<close>

lemma privateTaskB_at_tick_0:
  assumes "i < 5" and "privateTaskB 0 (main_payrange rs file) = Inr s'"
  shows "stringTime (taskBStructure s' ! i) = 0"
proof -
  let ?k = "snth rs 8 mod 4"
  have B: "taskBStructure s' = (taskBStructure (main_payrange rs file))
             [?k := \<lparr>stringTime = 0, stringPlacer = tokenOf rs\<rparr>]"
    using assms(2) by (auto simp: privateTaskB_eq main_payrange_fields)
  show ?thesis
  proof (cases "i = ?k")
    case True
    then show ?thesis using assms(1) by (simp add: B main_payrange_lengths)
  next
    case False
    then show ?thesis using assms(1) by (simp add: B main_payrange_B_empty)
  qed
qed

theorem handleInterruptC_empty_B_never_returns_witness:
  "\<exists>s'. privateTaskB 0 (main_payrange (sconst 4) (Some [])) = Inr s'
     \<and> stringPlacer (taskBStructure s' ! 0) = ''eeeeeeee''
     \<and> (\<forall>i<5. stringTime (taskBStructure s' ! i) = 0)
     \<and> handleInterruptC 20 True True s' = None"
proof -
  obtain s' where s': "privateTaskB 0 (main_payrange (sconst 4) (Some [])) = Inr s'"
    by (simp add: privateTaskB_eq)
  have tok: "stringPlacer (taskBStructure s' ! 0) = ''eeeeeeee''"
    using s' by (auto simp: privateTaskB_eq main_payrange_arrays main_payrange_fields tokenOf_sconst_4)
  have e: "\<forall>i<5. stringTime (taskBStructure s' ! i) = 0"
    using s' privateTaskB_at_tick_0 by blast
  from handleInterruptC_empty_B_never_returns [OF e] s' tok e show ?thesis by blast
qed

section \<open>Which slots of B a capture pairs\<close>

text \<open>
  C9. The search of \<open>handleInterruptC\<close> takes the slot it has drawn exactly when the
  \<open>stringTime\<close> of the slot is not 0: a slot that it returns has a nonzero timestamp; a
  draw that lands on a nonzero timestamp ends the search with that slot; a draw that
  lands on the timestamp 0 is skipped. The tokens play no part: two arrays with the same
  timestamps give the same search, so a token stored with the timestamp 0 is treated as
  a slot that was never written. The line that a capture appends to E.txt therefore
  never carries the timestamp 0.
\<close>

theorem findValidValueB_occupied_iff_stringTime_nonzero:
  "(handleInterruptC_findValidValueB B rs = Some res \<longrightarrow>
      (\<exists>randomSlotB rs'. res = Inr (randomSlotB, rs') \<and> randomSlotB < 5
         \<and> stringTime (B ! randomSlotB) \<noteq> 0))
   \<and> (stringTime (B ! (shd rs mod 5)) \<noteq> 0 \<longrightarrow>
        handleInterruptC_findValidValueB B rs = Some (Inr (shd rs mod 5, stl rs)))
   \<and> (stringTime (B ! (shd rs mod 5)) = 0 \<longrightarrow>
        handleInterruptC_findValidValueB B rs = handleInterruptC_findValidValueB B (stl rs))
   \<and> ((\<forall>i<5. stringTime (B ! i) = stringTime (B' ! i)) \<longrightarrow>
        handleInterruptC_findValidValueB B rs = handleInterruptC_findValidValueB B' rs)
   \<and> (handleInterruptC t fc fo s = Some (Inr s') \<and> length (valueEStructure s) = 7 \<longrightarrow>
        (\<exists>lines. fileE s' = Some lines \<and> lines \<noteq> [] \<and> lineStringTime (last lines) \<noteq> 0))"
proof (intro conjI impI)
  assume "handleInterruptC_findValidValueB B rs = Some res"
  then show "\<exists>randomSlotB rs'. res = Inr (randomSlotB, rs') \<and> randomSlotB < 5
         \<and> stringTime (B ! randomSlotB) \<noteq> 0"
    by (rule findValidValueB_Some)
next
  assume "stringTime (B ! (shd rs mod 5)) \<noteq> 0"
  then show "handleInterruptC_findValidValueB B rs = Some (Inr (shd rs mod 5, stl rs))"
    by (subst findValidValueB_step) simp
next
  assume "stringTime (B ! (shd rs mod 5)) = 0"
  then show "handleInterruptC_findValidValueB B rs = handleInterruptC_findValidValueB B (stl rs)"
    by (subst findValidValueB_step) simp
next
  assume "\<forall>i<5. stringTime (B ! i) = stringTime (B' ! i)"
  then show "handleInterruptC_findValidValueB B rs = handleInterruptC_findValidValueB B' rs"
    by (rule findValidValueB_cong)
next
  assume "handleInterruptC t fc fo s = Some (Inr s') \<and> length (valueEStructure s) = 7"
  then have c: "handleInterruptC t fc fo s = Some (Inr s')"
    and len: "length (valueEStructure s) = 7" by simp_all
  from handleInterruptC_effect [OF c len]
  show "\<exists>lines. fileE s' = Some lines \<and> lines \<noteq> [] \<and> lineStringTime (last lines) \<noteq> 0"
    by (auto simp: lineOf_def valueE_of_def)
qed

text \<open>
  With the token \<open>eeeeeeee\<close> stored at tick 0 in slot 0: the draw 0 is skipped, as it is
  for the slot that was never written, and the draw 2 ends the search.
\<close>

lemma tickZeroB_times: "\<forall>i<5. stringTime (tickZeroB ! i) = stringTime (oneTokenB ! i)"
  by (auto simp: tickZeroB_def oneTokenB_def nth_Cons' split: if_splits)

theorem findValidValueB_occupied_iff_stringTime_nonzero_witness:
  "stringTime (tickZeroB ! 0) = 0 \<and> stringPlacer (tickZeroB ! 0) = ''eeeeeeee''
   \<and> handleInterruptC_findValidValueB tickZeroB (0 ## 2 ## sconst 0)
       = handleInterruptC_findValidValueB tickZeroB (2 ## sconst 0)
   \<and> stringTime (tickZeroB ! 2) \<noteq> 0
   \<and> handleInterruptC_findValidValueB tickZeroB (2 ## sconst 0) = Some (Inr (2, sconst 0))
   \<and> map stringTime tickZeroB = map stringTime oneTokenB
   \<and> handleInterruptC_findValidValueB tickZeroB (0 ## 2 ## sconst 0)
       = handleInterruptC_findValidValueB oneTokenB (0 ## 2 ## sconst 0)
   \<and> (\<exists>s'. handleInterruptC 20 True True (oneTokenState (0 ## 4 ## 2 ## 6 ## sconst 0)) = Some (Inr s')
        \<and> (\<exists>lines. fileE s' = Some lines \<and> lines \<noteq> [] \<and> lineStringTime (last lines) \<noteq> 0))"
proof -
  let ?s = "oneTokenState (0 ## 4 ## 2 ## 6 ## sconst 0)"
  obtain s' where c: "handleInterruptC 20 True True ?s = Some (Inr s')"
    using oneTokenState_capture by blast
  have len: "length (valueEStructure ?s) = 7"
    by (simp add: oneTokenState_fields main_payrange_lengths)
  have t0: "stringTime (tickZeroB ! 0) = 0" "stringPlacer (tickZeroB ! 0) = ''eeeeeeee''"
    and t2: "stringTime (tickZeroB ! 2) \<noteq> 0"
    by (simp_all add: tickZeroB_def)
  note a = findValidValueB_occupied_iff_stringTime_nonzero
    [of tickZeroB "0 ## 2 ## sconst 0" "Inr (2, sconst 0)" oneTokenB 20 True True ?s s']
  note b = findValidValueB_occupied_iff_stringTime_nonzero
    [of tickZeroB "2 ## sconst 0" "Inr (2, sconst 0)" oneTokenB 20 True True ?s s']
  have times: "map stringTime tickZeroB = map stringTime oneTokenB"
    by (simp add: tickZeroB_def oneTokenB_def)
  from a b c len t0 t2 tickZeroB_times times show ?thesis by auto
qed

section \<open>What a lookup prints\<close>

text \<open>
  The loop of \<open>handleInterruptG\<close> prints one line for every index from \<open>i\<close> up to 5
  whose number equals the input, in increasing order, and sets the flag when there is
  one.
\<close>

lemma handleInterruptG_loop_eq:
  "handleInterruptG_loop i q F (out, found) =
     (out @ map (\<lambda>j. foundLine (F ! j))
              (filter (\<lambda>j. q = randomNumber (currentValueD (F ! j))) [i..<6]),
      found \<or> filter (\<lambda>j. q = randomNumber (currentValueD (F ! j))) [i..<6] \<noteq> [])"
proof (induction i q F "(out, found)" arbitrary: out found rule: handleInterruptG_loop.induct)
  case (1 i q F out found)
  show ?case
  proof (cases "i < 6")
    case False
    then show ?thesis by (simp add: handleInterruptG_loop.simps)
  next
    case True
    then have upt: "[i..<6] = i # [i + 1..<6]" by (simp add: upt_rec)
    show ?thesis
    proof (cases "q = randomNumber (currentValueD (F ! i))")
      case m: True
      show ?thesis
        using True m "1"(1)[of "out @ [foundLine (F ! i)]" True]
        by (subst handleInterruptG_loop.simps) (simp add: upt foundLine_def)
    next
      case m: False
      show ?thesis
        using True m "1"(1)[of out found]
        by (subst handleInterruptG_loop.simps) (simp add: upt)
    qed
  qed
qed

lemma handleInterruptG_console:
  "console (handleInterruptG q s) =
     console s @ [PleaseEnterCode]
       @ map (\<lambda>j. foundLine (valueEStructure s ! j)) (matchingSlots q (valueEStructure s))
       @ (if matchingSlots q (valueEStructure s) = [] then [ValueNotFound q] else [])"
  by (simp add: handleInterruptG_def handleInterruptG_loop_eq matchingSlots_def)

lemma lookupOutput_eq:
  "lookupOutput q s =
     PleaseEnterCode
       # map (\<lambda>j. foundLine (valueEStructure s ! j)) (matchingSlots q (valueEStructure s))
       @ (if matchingSlots q (valueEStructure s) = [] then [ValueNotFound q] else [])"
  by (simp add: lookupOutput_def handleInterruptG_console)

lemma set_matchingSlots:
  "j \<in> set (matchingSlots q F) \<longleftrightarrow> j < 6 \<and> q = randomNumber (currentValueD (F ! j))"
  by (auto simp: matchingSlots_def)

text \<open>What slot 6 holds has no effect on what the handler prints.\<close>

lemma matchingSlots_update_6: "matchingSlots q (F[6 := e]) = matchingSlots q F"
  unfolding matchingSlots_def by (rule filter_cong) auto

lemma foundLine_update_6:
  "map (\<lambda>j. foundLine (F[6 := e] ! j)) (matchingSlots q F)
     = map (\<lambda>j. foundLine (F ! j)) (matchingSlots q F)"
  by (rule map_cong) (auto simp: matchingSlots_def)

lemma handleInterruptG_ignores_slot_6:
  "console (handleInterruptG q (s\<lparr>valueEStructure := (valueEStructure s)[6 := e]\<rparr>))
     = console (handleInterruptG q s)"
  by (simp add: handleInterruptG_console matchingSlots_update_6 foundLine_update_6)

text \<open>
  C1 claims that a lookup scans all 7 slots of F, so that a record in the last slot,
  index 6, is found by a lookup for its value. The loop of \<open>handleInterruptG\<close> runs
  while \<open>i < SIZE_OF_VALUE_E_STRUCTURE - 1\<close> and stops after index 5: with the record
  for 123456789012 in slot 6 of an otherwise zeroed F, the lookup for 123456789012 prints
  that the value was not found.
\<close>

theorem handleInterruptG_misses_slot_6:
  "randomNumber (currentValueD
      ((valueEStructure (main_payrange (sconst 0) None))
         [6 := \<lparr>randomValueB = \<lparr>stringTime = 10, stringPlacer = ''Ab12xyzQ''\<rparr>,
                currentValueD = \<lparr>randomNumberTime = 20, randomNumber = 123456789012\<rparr>\<rparr>] ! 6))
     = 123456789012
   \<and> console (handleInterruptG 123456789012
      ((main_payrange (sconst 0) None)
         \<lparr>valueEStructure := (valueEStructure (main_payrange (sconst 0) None))
             [6 := \<lparr>randomValueB = \<lparr>stringTime = 10, stringPlacer = ''Ab12xyzQ''\<rparr>,
                    currentValueD = \<lparr>randomNumberTime = 20, randomNumber = 123456789012\<rparr>\<rparr>]\<rparr>))
     = [PleaseEnterCode, ValueNotFound 123456789012]"
  by (simp add: handleInterruptG_console matchingSlots_def upt_0_6 main_payrange_arrays
        main_payrange_fields)

text \<open>
  The found lines that a lookup prints, and their timestamps, slot by slot; and the
  slots of the whole of F that hold a number, when the last slot does not hold it.
\<close>

lemma foundLines_append: "foundLines (xs @ ys) = foundLines xs @ foundLines ys"
  by (induction xs rule: foundLines.induct) simp_all

lemma foundTimes_append: "foundTimes (xs @ ys) = foundTimes xs @ foundTimes ys"
  by (induction xs rule: foundTimes.induct) simp_all

lemma foundLines_map_foundLine: "foundLines (map foundLine es) = map foundLine es"
  by (induction es) (simp_all add: foundLine_def)

lemma foundTimes_map_foundLine:
  "foundTimes (map foundLine es) = map (\<lambda>e. stringTime (randomValueB e)) es"
  by (induction es) (simp_all add: foundLine_def)

lemma foundLines_lookupOutput:
  "foundLines (lookupOutput q s) =
     map foundLine (map (\<lambda>j. valueEStructure s ! j) (matchingSlots q (valueEStructure s)))"
proof -
  have "foundLines (lookupOutput q s) =
      foundLines (map foundLine (map (\<lambda>j. valueEStructure s ! j)
        (matchingSlots q (valueEStructure s))))"
    by (simp add: lookupOutput_eq foundLines_append comp_def)
  then show ?thesis by (simp only: foundLines_map_foundLine)
qed

lemma foundTimes_lookupOutput:
  "foundTimes (lookupOutput q s) =
     map (\<lambda>j. stringTime (randomValueB (valueEStructure s ! j)))
       (matchingSlots q (valueEStructure s))"
proof -
  have "foundTimes (lookupOutput q s) =
      foundTimes (map foundLine (map (\<lambda>j. valueEStructure s ! j)
        (matchingSlots q (valueEStructure s))))"
    by (simp add: lookupOutput_eq foundTimes_append comp_def)
  then show ?thesis by (simp only: foundTimes_map_foundLine) (simp add: comp_def)
qed

lemma matching_of_whole_array:
  assumes "length F = 7" and "q \<noteq> randomNumber (currentValueD (F ! 6))"
  shows "filter (\<lambda>e. q = randomNumber (currentValueD e)) F
           = map (\<lambda>j. F ! j) (matchingSlots q F)"
proof -
  have upt: "[0..<7] = [0..<6] @ [6]" by (simp add: upt_rec)
  have "F = map (\<lambda>j. F ! j) [0..<7]" using assms(1) map_nth[of F] by simp
  then have "filter (\<lambda>e. q = randomNumber (currentValueD e)) F
      = filter (\<lambda>e. q = randomNumber (currentValueD e)) (map (\<lambda>j. F ! j) [0..<7])" by simp
  also have "\<dots> = map (\<lambda>j. F ! j) (filter (\<lambda>j. q = randomNumber (currentValueD (F ! j))) [0..<7])"
    by (simp add: filter_map comp_def)
  also have "\<dots> = map (\<lambda>j. F ! j) (matchingSlots q F)"
    using assms(2) by (simp add: upt matchingSlots_def)
  finally show ?thesis .
qed

text \<open>
  C5, as amended: in a lookup every slot of F whose number equals the input is reported,
  one found line per slot, in the order of the slots: the later matches as well as the
  first, since the loop has no early exit. This is stated for the lookups in which the
  last slot, index 6, does not hold the input; what the loop does with that slot is the
  subject of C1 and is left out here.
\<close>

theorem handleInterruptG_reports_all_matches:
  "q \<noteq> randomNumber (currentValueD (valueEStructure s ! 6))
     \<and> length (valueEStructure s) = SIZE_OF_VALUE_E_STRUCTURE \<longrightarrow>
   foundLines (lookupOutput q s)
     = map foundLine (filter (\<lambda>e. q = randomNumber (currentValueD e)) (valueEStructure s))"
proof
  assume a: "q \<noteq> randomNumber (currentValueD (valueEStructure s ! 6))
     \<and> length (valueEStructure s) = SIZE_OF_VALUE_E_STRUCTURE"
  then have "filter (\<lambda>e. q = randomNumber (currentValueD e)) (valueEStructure s)
           = map (\<lambda>j. valueEStructure s ! j) (matchingSlots q (valueEStructure s))"
    by (intro matching_of_whole_array) simp_all
  then show "foundLines (lookupOutput q s)
     = map foundLine (filter (\<lambda>e. q = randomNumber (currentValueD e)) (valueEStructure s))"
    by (simp only: foundLines_lookupOutput)
qed

theorem handleInterruptG_reports_all_matches_witness:
  "555555555555 \<noteq> randomNumber (currentValueD (valueEStructure twoMatchesState ! 6))
   \<and> length (valueEStructure twoMatchesState) = 7
   \<and> foundLines (lookupOutput 555555555555 twoMatchesState)
       = [EValueFound 10 ''Ab12xyzQ'', EValueFound 15 ''Zz99aaaB'']"
proof -
  have F: "valueEStructure twoMatchesState =
      (valueEStructure (main_payrange (sconst 0) None))
            [1 := \<lparr>randomValueB = \<lparr>stringTime = 10, stringPlacer = ''Ab12xyzQ''\<rparr>,
                   currentValueD = \<lparr>randomNumberTime = 20, randomNumber = 555555555555\<rparr>\<rparr>,
             4 := \<lparr>randomValueB = \<lparr>stringTime = 15, stringPlacer = ''Zz99aaaB''\<rparr>,
                   currentValueD = \<lparr>randomNumberTime = 21, randomNumber = 555555555555\<rparr>\<rparr>]"
    by (simp add: twoMatchesState_def)
  have h1: "555555555555 \<noteq> randomNumber (currentValueD (valueEStructure twoMatchesState ! 6))"
    by (simp add: F main_payrange_arrays)
  have h2: "length (valueEStructure twoMatchesState) = 7"
    by (simp add: F main_payrange_lengths)
  from handleInterruptG_reports_all_matches [of 555555555555 twoMatchesState] h1 h2
  have "foundLines (lookupOutput 555555555555 twoMatchesState)
     = map foundLine (filter (\<lambda>e. 555555555555 = randomNumber (currentValueD e))
         (valueEStructure twoMatchesState))" by simp
  also have "\<dots> = [EValueFound 10 ''Ab12xyzQ'', EValueFound 15 ''Zz99aaaB'']"
    by (simp add: F main_payrange_arrays foundLine_def)
  finally show ?thesis using h1 h2 by simp
qed

text \<open>
  C5 as stated, that only the first match is reported, fails: with the same number in
  slots 1 and 4, the lookup prints both tokens.
\<close>

theorem handleInterruptG_first_match_only_counterexample:
  "console (handleInterruptG 555555555555
      ((main_payrange (sconst 0) None)
         \<lparr>valueEStructure := (valueEStructure (main_payrange (sconst 0) None))
             [1 := \<lparr>randomValueB = \<lparr>stringTime = 10, stringPlacer = ''Ab12xyzQ''\<rparr>,
                    currentValueD = \<lparr>randomNumberTime = 20, randomNumber = 555555555555\<rparr>\<rparr>,
              4 := \<lparr>randomValueB = \<lparr>stringTime = 15, stringPlacer = ''Zz99aaaB''\<rparr>,
                    currentValueD = \<lparr>randomNumberTime = 21, randomNumber = 555555555555\<rparr>\<rparr>]\<rparr>))
   = [PleaseEnterCode, EValueFound 10 ''Ab12xyzQ'', EValueFound 15 ''Zz99aaaB'']"
  by (simp add: handleInterruptG_console matchingSlots_def upt_0_6 main_payrange_arrays foundLine_def)
     (simp add: main_payrange_def)

section \<open>Runs of the program\<close>

text \<open>
  No step of a run changes the length of an array: in every state that a run reaches
  from \<open>main_payrange\<close>, B has 5 slots and F has 7.
\<close>

lemma privateTaskA_arrays:
  assumes "privateTaskA s = Inr s'"
  shows "taskBStructure s' = taskBStructure s \<and> valueEStructure s' = valueEStructure s"
  using assms by (auto simp: privateTaskA_def rand_def Let_def split: if_splits)

lemma handleInterruptG_arrays:
  "taskBStructure (handleInterruptG q s) = taskBStructure s \<and>
   valueEStructure (handleInterruptG q s) = valueEStructure s"
  by (simp add: handleInterruptG_def split: prod.split)

lemma runStep_lengths:
  assumes "runStep x s = Some (Inr s')"
  shows "length (taskBStructure s') = length (taskBStructure s)
       \<and> length (valueEStructure s') = length (valueEStructure s)"
proof (cases x)
  case RunTaskA
  with assms have "s' = s \<or> privateTaskA s = Inr s'" by (auto split: if_splits)
  then show ?thesis using privateTaskA_arrays by auto
next
  case (RunTaskB t)
  with assms show ?thesis by (auto simp: privateTaskB_eq)
next
  case (RunKeyboard key t fc fo q)
  show ?thesis
  proof (cases "\<exists>k. key = Some k \<and> (k = 67 \<or> k = 99)")
    case True
    with assms RunKeyboard have c: "handleInterruptC t fc fo s = Some (Inr s')"
      by (auto simp: keyboardTrackTask_def)
    from handleInterruptC_Inr[OF c] obtain randomSlotB rs1 where
      w: "writeToFileE fc fo (shd rs1 mod 6)
              (s\<lparr>valueEStructure := (valueEStructure s)
                     [shd rs1 mod 6 := valueE_of (taskBStructure s ! randomSlotB) t
                        (currentRandomNumberFromTaskA s)],
                 randState := stl rs1\<rparr>) = Inr s'" by blast
    show ?thesis by (subst writeToFileE_Inr[OF w], subst writeToFileE_Inr[OF w]) simp
  next
    case False
    with assms RunKeyboard have "s' = handleInterruptG q s \<or> s' = s"
      by (auto simp: keyboardTrackTask_def split: option.splits if_splits)
    then show ?thesis using handleInterruptG_arrays by auto
  qed
qed

lemma run_lengths:
  assumes "run steps s = Some (Inr s')"
  shows "length (taskBStructure s') = length (taskBStructure s)
       \<and> length (valueEStructure s') = length (valueEStructure s)"
  using assms
proof (induction steps arbitrary: s)
  case Nil
  then show ?case by simp
next
  case (Cons x xs)
  from Cons.prems obtain s1 where
    st: "runStep x s = Some (Inr s1)" and rest: "run xs s1 = Some (Inr s')"
    by (auto split: option.splits sum.splits)
  from runStep_lengths[OF st] Cons.IH[OF rest] show ?case by simp
qed

lemma run_main_payrange_lengths:
  assumes "run steps (main_payrange rs file) = Some (Inr s')"
  shows "length (taskBStructure s') = SIZE_OF_THE_TASK_B_ARRAY
       \<and> length (valueEStructure s') = SIZE_OF_VALUE_E_STRUCTURE"
  using run_lengths[OF assms] by (simp add: main_payrange_lengths)

text \<open>
  No step of a run writes slot 4 of B or slot 6 of F: in every state that a run reaches
  from \<open>main_payrange\<close>, they are as C initialised them.
\<close>

lemma runStep_last_slots:
  assumes "runStep x s = Some (Inr s')"
  shows "taskBStructure s' ! 4 = taskBStructure s ! 4
       \<and> valueEStructure s' ! 6 = valueEStructure s ! 6"
proof (cases x)
  case RunTaskA
  with assms have "s' = s \<or> privateTaskA s = Inr s'" by (auto split: if_splits)
  then show ?thesis using privateTaskA_arrays by auto
next
  case (RunTaskB t)
  have "snth (randState s) 8 mod 4 < 4" by simp
  then have "snth (randState s) 8 mod 4 \<noteq> 4" by linarith
  with assms RunTaskB show ?thesis by (auto simp: privateTaskB_eq)
next
  case (RunKeyboard key t fc fo q)
  show ?thesis
  proof (cases "\<exists>k. key = Some k \<and> (k = 67 \<or> k = 99)")
    case True
    with assms RunKeyboard have c: "handleInterruptC t fc fo s = Some (Inr s')"
      by (auto simp: keyboardTrackTask_def)
    from handleInterruptC_Inr[OF c] obtain randomSlotB rs1 where
      w: "writeToFileE fc fo (shd rs1 mod 6)
              (s\<lparr>valueEStructure := (valueEStructure s)
                     [shd rs1 mod 6 := valueE_of (taskBStructure s ! randomSlotB) t
                        (currentRandomNumberFromTaskA s)],
                 randState := stl rs1\<rparr>) = Inr s'" by blast
    have "shd rs1 mod 6 < 6" by simp
    then have "shd rs1 mod 6 \<noteq> 6" by linarith
    then show ?thesis by (subst writeToFileE_Inr[OF w], subst writeToFileE_Inr[OF w]) simp
  next
    case False
    with assms RunKeyboard have "s' = handleInterruptG q s \<or> s' = s"
      by (auto simp: keyboardTrackTask_def split: option.splits if_splits)
    then show ?thesis using handleInterruptG_arrays by auto
  qed
qed

lemma run_last_slots:
  assumes "run steps s = Some (Inr s')"
  shows "taskBStructure s' ! 4 = taskBStructure s ! 4
       \<and> valueEStructure s' ! 6 = valueEStructure s ! 6"
  using assms
proof (induction steps arbitrary: s)
  case Nil
  then show ?case by simp
next
  case (Cons x xs)
  from Cons.prems obtain s1 where
    st: "runStep x s = Some (Inr s1)" and rest: "run xs s1 = Some (Inr s')"
    by (auto split: option.splits sum.splits)
  from runStep_last_slots[OF st] Cons.IH[OF rest] show ?case by simp
qed

lemma run_main_payrange_last_slots:
  assumes "run steps (main_payrange rs file) = Some (Inr s')"
  shows "taskBStructure s' ! 4 = \<lparr>stringTime = 0, stringPlacer = []\<rparr>
       \<and> valueEStructure s' ! 6 =
           \<lparr>randomValueB = \<lparr>stringTime = 0, stringPlacer = []\<rparr>,
            currentValueD = \<lparr>randomNumberTime = 0, randomNumber = 0\<rparr>\<rparr>"
  using run_last_slots[OF assms] by (simp add: main_payrange_arrays)

section \<open>E.txt and its line numbers\<close>

text \<open>
  Only a capture touches E.txt and the line counter. A capture that returns adds one line,
  numbered with the counter, after the lines it keeps, and adds 1 to the counter.
\<close>

lemma privateTaskA_log:
  assumes "privateTaskA s = Inr s'"
  shows "fileE s' = fileE s \<and> fileELineNumber s' = fileELineNumber s"
  using assms by (auto simp: privateTaskA_def rand_def Let_def split: if_splits)

lemma privateTaskB_log:
  assumes "privateTaskB t s = Inr s'"
  shows "fileE s' = fileE s \<and> fileELineNumber s' = fileELineNumber s"
  using assms by (auto simp: privateTaskB_eq)

lemma handleInterruptG_log:
  "fileE (handleInterruptG q s) = fileE s \<and>
   fileELineNumber (handleInterruptG q s) = fileELineNumber s"
  by (simp add: handleInterruptG_def split: prod.split)

lemma handleInterruptG_log_simps:
  "fileE (handleInterruptG q s) = fileE s"
  "fileELineNumber (handleInterruptG q s) = fileELineNumber s"
  by (simp_all add: handleInterruptG_log)

lemma writeToFileE_log:
  assumes "writeToFileE fc fo slot s = Inr s'"
  shows "fileELineNumber s' = fileELineNumber s + 1
       \<and> fileE s' = Some ((case fileE s of None \<Rightarrow> []
                              | Some old \<Rightarrow> if fileELineNumber s \<noteq> 0 then old else [])
                            @ [lineOf (fileELineNumber s) (valueEStructure s ! slot)])"
  by (subst writeToFileE_Inr[OF assms], subst writeToFileE_Inr[OF assms]) simp

lemma handleInterruptC_log:
  assumes "handleInterruptC t fc fo s = Some (Inr s')"
  shows "\<exists>l. lineNumber l = fileELineNumber s
       \<and> fileELineNumber s' = fileELineNumber s + 1
       \<and> fileE s' = Some ((case fileE s of None \<Rightarrow> []
                              | Some old \<Rightarrow> if fileELineNumber s \<noteq> 0 then old else []) @ [l])"
proof -
  from handleInterruptC_Inr[OF assms] obtain randomSlotB rs1 where
    w: "writeToFileE fc fo (shd rs1 mod 6)
              (s\<lparr>valueEStructure := (valueEStructure s)
                     [shd rs1 mod 6 := valueE_of (taskBStructure s ! randomSlotB) t
                        (currentRandomNumberFromTaskA s)],
                 randState := stl rs1\<rparr>) = Inr s'" by blast
  from writeToFileE_log[OF w] show ?thesis by (cases "fileE s") (auto simp: lineOf_def)
qed

text \<open>
  The counter is an \<open>int\<close>: up to \<open>INT_MAX\<close> captures it is not 0 again after the first
  one, and \<open>logAfter\<close> holds after every step of a run.
\<close>

lemma word_of_nat_neq_0:
  assumes "0 < k" and "k \<le> INT_MAX"
  shows "(word_of_nat k :: int_t) \<noteq> 0"
proof (rule of_nat_neq_0)
  show "0 < k" by (rule assms(1))
  show "k < 2 ^ LENGTH(32)" using assms(2) by simp
qed

lemma logAfter_capture:
  assumes inv: "logAfter file k s" and k: "k \<le> INT_MAX"
    and c: "handleInterruptC t fc fo s = Some (Inr s')"
  shows "logAfter file (Suc k) s'"
proof -
  from handleInterruptC_log[OF c] obtain l where
    l: "lineNumber l = fileELineNumber s"
    and n: "fileELineNumber s' = fileELineNumber s + 1"
    and f: "fileE s' = Some ((case fileE s of None \<Rightarrow> []
                              | Some old \<Rightarrow> if fileELineNumber s \<noteq> 0 then old else []) @ [l])"
    by blast
  from inv have cnt: "fileELineNumber s = word_of_nat k" by (simp add: logAfter_def)
  have cnt': "fileELineNumber s' = word_of_nat (Suc k)" using n cnt by simp
  show ?thesis
  proof (cases "k = 0")
    case True
    with cnt have "fileELineNumber s = 0" by simp
    with f have "fileE s' = Some [l]" by (simp split: option.split)
    moreover from l cnt True have "lineNumber l = 0" by simp
    ultimately show ?thesis using cnt' True by (simp add: logAfter_def)
  next
    case False
    with inv obtain lines where lines: "fileE s = Some lines"
      "map lineNumber lines = map word_of_nat [0..<k]"
      by (auto simp: logAfter_def split: option.splits)
    from False k have "(word_of_nat k :: int_t) \<noteq> 0" by (intro word_of_nat_neq_0) simp_all
    with cnt have "fileELineNumber s \<noteq> 0" by simp
    with f lines have "fileE s' = Some (lines @ [l])" by simp
    moreover have "map lineNumber (lines @ [l]) = map word_of_nat [0..<Suc k]"
      using lines(2) l cnt by simp
    ultimately show ?thesis using cnt' by (simp add: logAfter_def)
  qed
qed

lemma logAfter_same:
  assumes "logAfter file k s" and "fileE s' = fileE s \<and> fileELineNumber s' = fileELineNumber s"
  shows "logAfter file k s'"
  using assms by (simp add: logAfter_def)

lemma logAfter_runStep:
  assumes inv: "logAfter file k s" and k: "k \<le> INT_MAX"
    and st: "runStep x s = Some (Inr s')"
  shows "logAfter file (if isCapture x then Suc k else k) s'"
proof (cases x)
  case RunTaskA
  with st have "s' = s \<or> privateTaskA s = Inr s'" by (auto split: if_splits)
  then show ?thesis using inv RunTaskA privateTaskA_log logAfter_same by auto
next
  case (RunTaskB t)
  with st have "privateTaskB t s = Inr s'" by simp
  then show ?thesis using inv RunTaskB privateTaskB_log logAfter_same by auto
next
  case (RunKeyboard key t fc fo q)
  show ?thesis
  proof (cases key)
    case None
    with st RunKeyboard inv show ?thesis by (simp add: keyboardTrackTask_def)
  next
    case (Some keyboardKey)
    show ?thesis
    proof (cases "keyboardKey = 67 \<or> keyboardKey = 99")
      case True
      with st RunKeyboard Some have "handleInterruptC t fc fo s = Some (Inr s')"
        by (simp add: keyboardTrackTask_def)
      from logAfter_capture[OF inv k this] True RunKeyboard Some show ?thesis by simp
    next
      case False
      with st RunKeyboard Some have "s' = handleInterruptG q s \<or> s' = s"
        by (auto simp: keyboardTrackTask_def split: if_splits)
      then have "logAfter file k s'"
        using inv handleInterruptG_log logAfter_same by blast
      with False RunKeyboard Some show ?thesis by simp
    qed
  qed
qed

lemma captures_Cons:
  "captures (x # xs) = (if isCapture x then Suc (captures xs) else captures xs)"
  by (simp add: captures_def)

lemma logAfter_run:
  assumes "logAfter file k s" and "k + captures steps \<le> INT_MAX"
    and "run steps s = Some (Inr s')"
  shows "logAfter file (k + captures steps) s'"
  using assms
proof (induction steps arbitrary: k s)
  case Nil
  then show ?case by (simp add: captures_def)
next
  case (Cons x xs)
  from Cons.prems(3) obtain s1 where
    st: "runStep x s = Some (Inr s1)" and rest: "run xs s1 = Some (Inr s')"
    by (auto split: option.splits sum.splits)
  let ?k1 = "if isCapture x then Suc k else k"
  from Cons.prems(2) have k: "k \<le> INT_MAX" by simp
  have inv1: "logAfter file ?k1 s1" by (rule logAfter_runStep[OF Cons.prems(1) k st])
  have bound: "?k1 + captures xs \<le> INT_MAX"
    using Cons.prems(2) by (cases "isCapture x") (simp_all add: captures_Cons)
  from Cons.IH[OF inv1 bound rest] show ?case
    by (cases "isCapture x") (simp_all add: captures_Cons)
qed

lemma logAfter_main_payrange: "logAfter file 0 (main_payrange rs file)"
  by (simp add: logAfter_def main_payrange_fields)

text \<open>
  The run \<open>exampleSteps\<close>, evaluated: both captures are in E.txt, and the lookup finds
  the number in two slots of F.
\<close>

lemma example_taskB:
  "privateTaskB 10 (main_payrange ([0, 1, 2, 3, 4, 5, 6, 7, 2] @- rs) file) =
     Inr ((main_payrange rs file)
       \<lparr>taskBStructure :=
          [\<lparr>stringTime = 0, stringPlacer = []\<rparr>, \<lparr>stringTime = 0, stringPlacer = []\<rparr>,
           \<lparr>stringTime = 10, stringPlacer = ''abcdefgh''\<rparr>,
           \<lparr>stringTime = 0, stringPlacer = []\<rparr>, \<lparr>stringTime = 0, stringPlacer = []\<rparr>],
        taskBRandomString := ''abcdefgh''\<rparr>)"
  by (simp add: privateTaskB_eq main_payrange_fields main_payrange_arrays tokenOf_def upt_0_8
        charsetLength_def charset_def snth_Stream_numeral sdrop_Stream_numeral)

lemma example_run:
  "\<exists>s''. run exampleSteps (main_payrange exampleRand (Some staleLog)) = Some (Inr s'')
     \<and> fileE s'' =
         Some [\<lparr>lineNumber = 0, lineStringTime = 10, lineStringPlacer = ''abcdefgh'',
                 lineRandomNumberTime = 20, lineRandomNumber = 104294967297\<rparr>,
               \<lparr>lineNumber = 1, lineStringTime = 10, lineStringPlacer = ''abcdefgh'',
                 lineRandomNumberTime = 25, lineRandomNumber = 104294967297\<rparr>]
     \<and> fileELineNumber s'' = 2
     \<and> console s'' =
         [ARandomNumber 104294967297, PleaseEnterCode,
          EValueFound 10 ''abcdefgh'', EValueFound 10 ''abcdefgh'']"
  by (simp add: exampleSteps_def exampleRand_def example_taskB [simplified]
        keyboardTrackTask_def handleInterruptC_def findValidValueB_step
        generateIntRandomNumber_def rand_def writeToFileE_def
        privateTaskA_def Let_def signed_modulo_int_def word_sless_alt
        handleInterruptG_log_simps handleInterruptG_console matchingSlots_def upt_0_6
        foundLine_def main_payrange_fields main_payrange_arrays staleLog_def)

lemma captures_exampleSteps: "captures exampleSteps = 2"
  by (simp add: captures_def exampleSteps_def)

text \<open>
  C10. An append made while the line counter is 0 leaves E.txt with the new line alone,
  numbered 0, whatever the file held before. Every append that succeeds writes its line,
  numbered with the counter, at the end of the file and adds 1 to the counter. So in a
  run of the program from \<open>main_payrange\<close>, which sets the counter to 0, with \<open>k\<close>
  captures (at most \<open>INT_MAX\<close>, the range of the counter), E.txt is as it was found
  when \<open>k\<close> is 0 and else holds exactly \<open>k\<close> lines, numbered 0, 1, ..., \<open>k - 1\<close>.
\<close>

theorem log_line_numbers:
  "(fileELineNumber s = 0 \<and> writeToFileE fc fo slotToWrite s = Inr s' \<longrightarrow>
      fileE s' = Some [lineOf 0 (valueEStructure s ! slotToWrite)] \<and> fileELineNumber s' = 1)
   \<and> (writeToFileE fc fo slotToWrite s = Inr s' \<longrightarrow>
      fileELineNumber s' = fileELineNumber s + 1
      \<and> (\<exists>kept. fileE s' =
            Some (kept @ [lineOf (fileELineNumber s) (valueEStructure s ! slotToWrite)])))
   \<and> (run steps (main_payrange rs file) = Some (Inr s'') \<and> captures steps \<le> INT_MAX \<longrightarrow>
      logAfter file (captures steps) s'')"
proof (intro conjI impI)
  assume a: "fileELineNumber s = 0 \<and> writeToFileE fc fo slotToWrite s = Inr s'"
  then have w: "writeToFileE fc fo slotToWrite s = Inr s'" by simp
  from writeToFileE_log[OF w] a
  show "fileE s' = Some [lineOf 0 (valueEStructure s ! slotToWrite)]"
    by (simp split: option.split)
  from writeToFileE_log[OF w] a show "fileELineNumber s' = 1" by simp
next
  assume w: "writeToFileE fc fo slotToWrite s = Inr s'"
  from writeToFileE_log[OF w] show "fileELineNumber s' = fileELineNumber s + 1" by simp
  from writeToFileE_log[OF w]
  show "\<exists>kept. fileE s' =
          Some (kept @ [lineOf (fileELineNumber s) (valueEStructure s ! slotToWrite)])"
    by blast
next
  assume "run steps (main_payrange rs file) = Some (Inr s'') \<and> captures steps \<le> INT_MAX"
  then have r: "run steps (main_payrange rs file) = Some (Inr s'')"
    and k: "0 + captures steps \<le> INT_MAX" by simp_all
  from logAfter_run[OF logAfter_main_payrange k r]
  show "logAfter file (captures steps) s''" by simp
qed

text \<open>
  The run \<open>exampleSteps\<close>: the line that E.txt held is gone, and the two lines of the
  run carry the numbers 0 and 1.
\<close>

theorem log_line_numbers_witness:
  "\<exists>s''. run exampleSteps (main_payrange exampleRand (Some staleLog)) = Some (Inr s'')
     \<and> captures exampleSteps \<le> INT_MAX
     \<and> logAfter (Some staleLog) 2 s''
     \<and> fileELineNumber s'' = 2
     \<and> (\<exists>l0 l1. fileE s'' = Some [l0, l1] \<and> lineNumber l0 = 0 \<and> lineNumber l1 = 1)"
proof -
  from example_run obtain s'' where
    r: "run exampleSteps (main_payrange exampleRand (Some staleLog)) = Some (Inr s'')"
    and f: "\<exists>l0 l1. fileE s'' = Some [l0, l1] \<and> lineNumber l0 = 0 \<and> lineNumber l1 = 1"
    and n: "fileELineNumber s'' = 2"
    by auto
  have k: "captures exampleSteps \<le> INT_MAX" by (simp add: captures_exampleSteps)
  from log_line_numbers [of _ _ _ _ _ exampleSteps exampleRand "Some staleLog" s''] r k
  have "logAfter (Some staleLog) 2 s''" by (simp add: captures_exampleSteps)
  with r k f n show ?thesis by blast
qed

section \<open>A capture followed by a lookup\<close>

text \<open>
  A lookup for the number of a slot below 6 reports the timestamp of that slot and does
  not print the not-found line; and what a capture that has returned leaves in F for a
  lookup to find. The statements are about the timestamps: which characters a found
  line shows as the token is left out of them.
\<close>

lemma lookup_finds_timestamp:
  assumes "j < 6"
    and "randomNumber (currentValueD (valueEStructure s ! j)) = q"
  shows "stringTime (randomValueB (valueEStructure s ! j)) \<in> set (foundTimes (lookupOutput q s))"
    and "ValueNotFound q' \<notin> set (lookupOutput q s)"
proof -
  have j: "j \<in> set (matchingSlots q (valueEStructure s))"
    using assms by (simp add: set_matchingSlots)
  then show "stringTime (randomValueB (valueEStructure s ! j)) \<in> set (foundTimes (lookupOutput q s))"
    by (auto simp: foundTimes_lookupOutput)
  from j have "matchingSlots q (valueEStructure s) \<noteq> []" by auto
  then show "ValueNotFound q' \<notin> set (lookupOutput q s)"
    by (auto simp: lookupOutput_eq foundLine_def)
qed

lemma lookup_timestamp_after_capture:
  assumes "handleInterruptC t fc fo s = Some (Inr s')"
    and "length (valueEStructure s) = SIZE_OF_VALUE_E_STRUCTURE"
  shows "\<exists>randomSlotB randomSlotF.
      randomSlotB < 5 \<and> stringTime (taskBStructure s ! randomSlotB) \<noteq> 0 \<and> randomSlotF < 6
    \<and> stringTime (randomValueB (valueEStructure s' ! randomSlotF))
        = stringTime (taskBStructure s ! randomSlotB)
    \<and> currentValueD (valueEStructure s' ! randomSlotF)
        = \<lparr>randomNumberTime = t, randomNumber = currentRandomNumberFromTaskA s\<rparr>
    \<and> (\<forall>s''. stringTime (randomValueB (valueEStructure s'' ! randomSlotF))
              = stringTime (randomValueB (valueEStructure s' ! randomSlotF))
            \<and> randomNumber (currentValueD (valueEStructure s'' ! randomSlotF))
              = currentRandomNumberFromTaskA s \<longrightarrow>
          stringTime (taskBStructure s ! randomSlotB)
            \<in> set (foundTimes (lookupOutput (currentRandomNumberFromTaskA s) s''))
          \<and> ValueNotFound (currentRandomNumberFromTaskA s)
            \<notin> set (lookupOutput (currentRandomNumberFromTaskA s) s''))
    \<and> (matchingSlots (currentRandomNumberFromTaskA s) (valueEStructure s') = [randomSlotF] \<longrightarrow>
          foundTimes (lookupOutput (currentRandomNumberFromTaskA s) s')
            = [stringTime (taskBStructure s ! randomSlotB)])"
proof -
  let ?a = "currentRandomNumberFromTaskA s"
  from handleInterruptC_effect[OF assms] obtain b f kept where
    b: "b < 5" "stringTime (taskBStructure s ! b) \<noteq> 0"
    and f: "f < 6"
    and slot: "valueEStructure s' ! f = valueE_of (taskBStructure s ! b) t ?a"
    by blast
  have time: "stringTime (randomValueB (valueEStructure s' ! f)) = stringTime (taskBStructure s ! b)"
    and d: "currentValueD (valueEStructure s' ! f) = \<lparr>randomNumberTime = t, randomNumber = ?a\<rparr>"
    by (simp_all add: slot valueE_of_def)
  have found: "stringTime (taskBStructure s ! b) \<in> set (foundTimes (lookupOutput ?a s''))
          \<and> ValueNotFound ?a \<notin> set (lookupOutput ?a s'')"
    if "stringTime (randomValueB (valueEStructure s'' ! f))
              = stringTime (randomValueB (valueEStructure s' ! f))
            \<and> randomNumber (currentValueD (valueEStructure s'' ! f)) = ?a" for s''
  proof -
    from that have n: "randomNumber (currentValueD (valueEStructure s'' ! f)) = ?a"
      and t: "stringTime (randomValueB (valueEStructure s'' ! f)) = stringTime (taskBStructure s ! b)"
      using time by simp_all
    from lookup_finds_timestamp(1)[OF f n] lookup_finds_timestamp(2)[OF f n, where q' = ?a] t
    show ?thesis by simp
  qed
  have only: "foundTimes (lookupOutput ?a s') = [stringTime (taskBStructure s ! b)]"
    if "matchingSlots ?a (valueEStructure s') = [f]"
    using that time by (simp add: foundTimes_lookupOutput)
  from b f time d found only show ?thesis by blast
qed

text \<open>
  C8, as amended. A capture returns when a draw of its search lands on a slot of B whose
  timestamp is not 0 and E.txt can be opened for writing. When it has returned, it has
  paired the number of task A with the timestamp of such a slot of B and stored the
  pair, with the tick count of the capture, in a slot of F below 6. A lookup for that
  number, run in any state in which that slot of F still holds the pair, reports found:
  one of its found lines carries the timestamp that was paired with the number, and it
  does not print the not-found line. That found line is the only one when no other slot
  that the lookup visits holds the same number; slots that hold it from earlier captures
  are reported with it. Which characters the found line shows as the token is left out:
  that is subject to the stores outside the char arrays (C7).
\<close>

theorem capture_then_lookup_timestamp:
  "((\<forall>k<n. stringTime (taskBStructure s ! (snth (randState s) k mod 5)) = 0)
      \<and> stringTime (taskBStructure s ! (snth (randState s) n mod 5)) \<noteq> 0
      \<and> fo \<and> (fileE s \<noteq> None \<or> fc) \<longrightarrow>
    (\<exists>s'. handleInterruptC t fc fo s = Some (Inr s')))
   \<and> (handleInterruptC t fc fo s = Some (Inr s')
      \<and> length (valueEStructure s) = SIZE_OF_VALUE_E_STRUCTURE \<longrightarrow>
    (\<exists>randomSlotB randomSlotF.
      randomSlotB < 5 \<and> stringTime (taskBStructure s ! randomSlotB) \<noteq> 0 \<and> randomSlotF < 6
    \<and> stringTime (randomValueB (valueEStructure s' ! randomSlotF))
        = stringTime (taskBStructure s ! randomSlotB)
    \<and> currentValueD (valueEStructure s' ! randomSlotF)
        = \<lparr>randomNumberTime = t, randomNumber = currentRandomNumberFromTaskA s\<rparr>
    \<and> (\<forall>s''. stringTime (randomValueB (valueEStructure s'' ! randomSlotF))
              = stringTime (randomValueB (valueEStructure s' ! randomSlotF))
            \<and> randomNumber (currentValueD (valueEStructure s'' ! randomSlotF))
              = currentRandomNumberFromTaskA s \<longrightarrow>
          stringTime (taskBStructure s ! randomSlotB)
            \<in> set (foundTimes (lookupOutput (currentRandomNumberFromTaskA s) s''))
          \<and> ValueNotFound (currentRandomNumberFromTaskA s)
            \<notin> set (lookupOutput (currentRandomNumberFromTaskA s) s''))
    \<and> (matchingSlots (currentRandomNumberFromTaskA s) (valueEStructure s') = [randomSlotF] \<longrightarrow>
          foundTimes (lookupOutput (currentRandomNumberFromTaskA s) s')
            = [stringTime (taskBStructure s ! randomSlotB)])))"
proof (intro conjI impI)
  assume "(\<forall>k<n. stringTime (taskBStructure s ! (snth (randState s) k mod 5)) = 0)
      \<and> stringTime (taskBStructure s ! (snth (randState s) n mod 5)) \<noteq> 0
      \<and> fo \<and> (fileE s \<noteq> None \<or> fc)"
  then show "\<exists>s'. handleInterruptC t fc fo s = Some (Inr s')"
    using handleInterruptC_returns by blast
next
  assume "handleInterruptC t fc fo s = Some (Inr s')
      \<and> length (valueEStructure s) = SIZE_OF_VALUE_E_STRUCTURE"
  then have c: "handleInterruptC t fc fo s = Some (Inr s')"
    and len: "length (valueEStructure s) = SIZE_OF_VALUE_E_STRUCTURE" by simp_all
  show "\<exists>randomSlotB randomSlotF.
      randomSlotB < 5 \<and> stringTime (taskBStructure s ! randomSlotB) \<noteq> 0 \<and> randomSlotF < 6
    \<and> stringTime (randomValueB (valueEStructure s' ! randomSlotF))
        = stringTime (taskBStructure s ! randomSlotB)
    \<and> currentValueD (valueEStructure s' ! randomSlotF)
        = \<lparr>randomNumberTime = t, randomNumber = currentRandomNumberFromTaskA s\<rparr>
    \<and> (\<forall>s''. stringTime (randomValueB (valueEStructure s'' ! randomSlotF))
              = stringTime (randomValueB (valueEStructure s' ! randomSlotF))
            \<and> randomNumber (currentValueD (valueEStructure s'' ! randomSlotF))
              = currentRandomNumberFromTaskA s \<longrightarrow>
          stringTime (taskBStructure s ! randomSlotB)
            \<in> set (foundTimes (lookupOutput (currentRandomNumberFromTaskA s) s''))
          \<and> ValueNotFound (currentRandomNumberFromTaskA s)
            \<notin> set (lookupOutput (currentRandomNumberFromTaskA s) s''))
    \<and> (matchingSlots (currentRandomNumberFromTaskA s) (valueEStructure s') = [randomSlotF] \<longrightarrow>
          foundTimes (lookupOutput (currentRandomNumberFromTaskA s) s')
            = [stringTime (taskBStructure s ! randomSlotB)])"
    by (rule lookup_timestamp_after_capture[OF c len])
qed

theorem capture_then_lookup_timestamp_witness:
  "stringTime (oneTokenB ! (0 mod 5)) = 0 \<and> stringTime (oneTokenB ! (4 mod 5)) = 0
   \<and> stringTime (oneTokenB ! (2 mod 5)) \<noteq> 0
   \<and> fileE (oneTokenState (0 ## 4 ## 2 ## 6 ## sconst 0)) \<noteq> None
   \<and> (\<exists>s'. handleInterruptC 20 True True (oneTokenState (0 ## 4 ## 2 ## 6 ## sconst 0)) = Some (Inr s')
     \<and> length (valueEStructure (oneTokenState (0 ## 4 ## 2 ## 6 ## sconst 0))) = 7
     \<and> matchingSlots 555555555555 (valueEStructure s') = [0]
     \<and> foundTimes (lookupOutput 555555555555 s') = [10]
     \<and> ValueNotFound 555555555555 \<notin> set (lookupOutput 555555555555 s'))"
proof -
  let ?s = "oneTokenState (0 ## 4 ## 2 ## 6 ## sconst 0)"
  have e: "stringTime (oneTokenB ! (0 mod 5)) = 0" "stringTime (oneTokenB ! (4 mod 5)) = 0"
    and o: "stringTime (oneTokenB ! (2 mod 5)) \<noteq> 0"
    by (simp_all add: oneTokenB_def)
  have ex: "fileE ?s \<noteq> None" by (simp add: oneTokenState_fields)
  have hits: "(\<forall>k<2. stringTime (taskBStructure ?s ! (snth (randState ?s) k mod 5)) = 0)
      \<and> stringTime (taskBStructure ?s ! (snth (randState ?s) 2 mod 5)) \<noteq> 0"
  proof (intro conjI allI impI)
    fix k :: nat
    assume "k < 2"
    then have "k = 0 \<or> k = Suc 0" by auto
    then show "stringTime (taskBStructure ?s ! (snth (randState ?s) k mod 5)) = 0"
      by (auto simp: oneTokenState_fields oneTokenB_def)
  next
    show "stringTime (taskBStructure ?s ! (snth (randState ?s) 2 mod 5)) \<noteq> 0"
      by (simp add: oneTokenState_fields oneTokenB_def snth_Stream_numeral)
  qed
  from capture_then_lookup_timestamp [of 2 ?s True True 20] hits ex
  obtain s' where c: "handleInterruptC 20 True True ?s = Some (Inr s')" by blast
  have len: "length (valueEStructure ?s) = 7"
    by (simp add: oneTokenState_fields main_payrange_lengths)
  have F': "valueEStructure s' = (valueEStructure (oneTokenState (sconst 0)))
              [0 := valueE_of (oneTokenB ! 2) 20 555555555555]"
    using c by (auto simp: oneTokenState_capture)
  have m: "matchingSlots 555555555555 (valueEStructure s') = [0]"
    unfolding F'
    by (simp add: matchingSlots_def upt_0_6 oneTokenState_fields main_payrange_arrays
          valueE_of_def)
  from capture_then_lookup_timestamp [of 2 ?s True True 20 s'] c len obtain b f where
    b: "b < 5" "stringTime (taskBStructure ?s ! b) \<noteq> 0"
    and f: "f < 6"
    and found: "\<forall>s''. stringTime (randomValueB (valueEStructure s'' ! f))
              = stringTime (randomValueB (valueEStructure s' ! f))
            \<and> randomNumber (currentValueD (valueEStructure s'' ! f))
              = currentRandomNumberFromTaskA ?s \<longrightarrow>
          stringTime (taskBStructure ?s ! b)
            \<in> set (foundTimes (lookupOutput (currentRandomNumberFromTaskA ?s) s''))
          \<and> ValueNotFound (currentRandomNumberFromTaskA ?s)
            \<notin> set (lookupOutput (currentRandomNumberFromTaskA ?s) s'')"
    and d: "currentValueD (valueEStructure s' ! f)
        = \<lparr>randomNumberTime = 20, randomNumber = currentRandomNumberFromTaskA ?s\<rparr>"
    and only: "matchingSlots (currentRandomNumberFromTaskA ?s) (valueEStructure s') = [f] \<longrightarrow>
          foundTimes (lookupOutput (currentRandomNumberFromTaskA ?s) s')
            = [stringTime (taskBStructure ?s ! b)]"
    by blast
  from b have b2: "b = 2" by (simp add: oneTokenState_fields oneTokenB_occupied)
  from d have n: "randomNumber (currentValueD (valueEStructure s' ! f))
      = currentRandomNumberFromTaskA ?s" by simp
  with f have "f \<in> set (matchingSlots 555555555555 (valueEStructure s'))"
    by (simp add: set_matchingSlots oneTokenState_fields)
  with m have f0: "f = 0" by simp
  from only m f0 b2 have t: "foundTimes (lookupOutput 555555555555 s') = [10]"
    by (simp add: oneTokenState_fields oneTokenB_2)
  from found n b2 have nf: "ValueNotFound 555555555555 \<notin> set (lookupOutput 555555555555 s')"
    by (simp add: oneTokenState_fields)
  from c len m t nf e o ex show ?thesis by blast
qed

text \<open>
  The run \<open>twoTokensSteps\<close>, evaluated.
\<close>

lemma twoTokens_taskB_5:
  "privateTaskB 5 (main_payrange ([0, 1, 2, 3, 4, 5, 6, 7, 2] @- rs) file) =
     Inr ((main_payrange rs file)
       \<lparr>taskBStructure :=
          [\<lparr>stringTime = 0, stringPlacer = []\<rparr>, \<lparr>stringTime = 0, stringPlacer = []\<rparr>,
           \<lparr>stringTime = 5, stringPlacer = ''abcdefgh''\<rparr>,
           \<lparr>stringTime = 0, stringPlacer = []\<rparr>, \<lparr>stringTime = 0, stringPlacer = []\<rparr>],
        taskBRandomString := ''abcdefgh''\<rparr>)"
  by (simp add: privateTaskB_eq main_payrange_fields main_payrange_arrays tokenOf_def upt_0_8
        charsetLength_def charset_def snth_Stream_numeral sdrop_Stream_numeral)

lemma twoTokens_taskB_10:
  "privateTaskB 10 ((main_payrange ([8, 9, 10, 11, 12, 13, 14, 15, 0] @- rs) file)
       \<lparr>taskBStructure :=
          [\<lparr>stringTime = 0, stringPlacer = []\<rparr>, \<lparr>stringTime = 0, stringPlacer = []\<rparr>,
           \<lparr>stringTime = 5, stringPlacer = ''abcdefgh''\<rparr>,
           \<lparr>stringTime = 0, stringPlacer = []\<rparr>, \<lparr>stringTime = 0, stringPlacer = []\<rparr>],
        taskBRandomString := ''abcdefgh''\<rparr>) =
     Inr ((main_payrange rs file)
       \<lparr>taskBStructure :=
          [\<lparr>stringTime = 10, stringPlacer = ''ijklmnop''\<rparr>, \<lparr>stringTime = 0, stringPlacer = []\<rparr>,
           \<lparr>stringTime = 5, stringPlacer = ''abcdefgh''\<rparr>,
           \<lparr>stringTime = 0, stringPlacer = []\<rparr>, \<lparr>stringTime = 0, stringPlacer = []\<rparr>],
        taskBRandomString := ''ijklmnop''\<rparr>)"
  by (simp add: privateTaskB_eq main_payrange_fields tokenOf_def upt_0_8
        charsetLength_def charset_def snth_Stream_numeral sdrop_Stream_numeral)
     (simp add: main_payrange_def)

lemma twoTokens_run:
  "\<exists>s''. run twoTokensSteps (main_payrange twoTokensRand None) = Some (Inr s'')
     \<and> fileE s'' =
         Some [\<lparr>lineNumber = 0, lineStringTime = 5, lineStringPlacer = ''abcdefgh'',
                 lineRandomNumberTime = 20, lineRandomNumber = 104294967297\<rparr>,
               \<lparr>lineNumber = 1, lineStringTime = 10, lineStringPlacer = ''ijklmnop'',
                 lineRandomNumberTime = 25, lineRandomNumber = 104294967297\<rparr>]
     \<and> console s'' =
         [ARandomNumber 104294967297, PleaseEnterCode,
          EValueFound 5 ''abcdefgh'', EValueFound 10 ''ijklmnop'']"
  by (simp add: twoTokensSteps_def twoTokensRand_def twoTokens_taskB_5 [simplified]
        twoTokens_taskB_10 [simplified]
        keyboardTrackTask_def handleInterruptC_def findValidValueB_step
        generateIntRandomNumber_def rand_def writeToFileE_def
        privateTaskA_def Let_def signed_modulo_int_def word_sless_alt
        handleInterruptG_log_simps handleInterruptG_console matchingSlots_def upt_0_6
        foundLine_def main_payrange_fields main_payrange_arrays)

text \<open>
  C8 as stated, that the lookup reports exactly the token and timestamp paired at the
  capture, fails when the number was captured before: in the run \<open>twoTokensSteps\<close> the
  capture at tick 25 pairs 104294967297 with the token of tick 10, the capture at tick
  20 had paired the same number with the token of tick 5, and the lookup that follows
  reports two found lines, the first of them with the timestamp 5.
\<close>

theorem capture_then_lookup_exact_counterexample:
  "pairsLogged (run twoTokensSteps (main_payrange twoTokensRand None))
     = [(5, 20, 104294967297), (10, 25, 104294967297)]
   \<and> timesReported (run twoTokensSteps (main_payrange twoTokensRand None)) = [5, 10]"
proof -
  from twoTokens_run obtain s'' where
    "run twoTokensSteps (main_payrange twoTokensRand None) = Some (Inr s'')"
    "fileE s'' =
         Some [\<lparr>lineNumber = 0, lineStringTime = 5, lineStringPlacer = ''abcdefgh'',
                 lineRandomNumberTime = 20, lineRandomNumber = 104294967297\<rparr>,
               \<lparr>lineNumber = 1, lineStringTime = 10, lineStringPlacer = ''ijklmnop'',
                 lineRandomNumberTime = 25, lineRandomNumber = 104294967297\<rparr>]"
    "console s'' =
         [ARandomNumber 104294967297, PleaseEnterCode,
          EValueFound 5 ''abcdefgh'', EValueFound 10 ''ijklmnop'']"
    by blast
  then show ?thesis by (simp add: pairsLogged_def timesReported_def)
qed

end
